theory Spec2Isabelle
  imports Main
begin

section \<open>Workbench states and perspectives\<close>

text \<open>
  A workbench state is a serialisable (JSON-like) value. The type \<open>IWorkbenchState\<close> is
  imported by the sources from \<^verbatim>\<open>../types\<close>; the perspective bar never looks inside it.
\<close>

datatype jvalue =
    JNull
  | JBool bool
  | JNum int
  | JStr string
  | JArr "jvalue list"
  | JObj "(string \<times> jvalue) list"

type_synonym IWorkbenchState = jvalue

text \<open>The interface \<^verbatim>\<open>IPerspective\<close>: optional colour and icon, the saved state, a label.\<close>

record IPerspective =
  color :: "string option"
  pstate :: IWorkbenchState
  icon :: "string option"
  label :: string

text \<open>
  Modelled from the spec: the comparator \<^verbatim>\<open>areWorkbenchStatesEqualIgnoringSelection\<close> is
  imported from \<^verbatim>\<open>./compare\<close>, which is not among the sources. The specification asks for
  a structural comparison of every field but the selection sub-field, total, with a
  malformed state (anything that is not an object) comparing unequal.
\<close>

definition withoutSelection :: "(string \<times> jvalue) list \<Rightarrow> (string \<times> jvalue) list" where
  "withoutSelection fs = filter (\<lambda>kv. fst kv \<noteq> ''selection'') fs"

fun areWorkbenchStatesEqualIgnoringSelection :: "IWorkbenchState \<Rightarrow> IWorkbenchState \<Rightarrow> bool" where
  "areWorkbenchStatesEqualIgnoringSelection (JObj fa) (JObj fb) =
     (withoutSelection fa = withoutSelection fb)"
| "areWorkbenchStatesEqualIgnoringSelection _ _ = False"


section \<open>The perspective bar\<close>

subsection \<open>Props, state and the instance\<close>

text \<open>
  Storages and workbenches are objects compared by reference; the model names them by
  numbers. The prop \<open>selectedPerspectiveId\<close> is \<open>None\<close> when the props object has no such
  property, and \<open>Some v\<close> when it has one (whose value may still be undefined).
\<close>

record IPerspectiveBarProps =
  errorMessage :: "string option"
  onChange :: "(string \<Rightarrow> bool) option"
  selectedPerspectiveIdProp :: "string option option"
  storage :: "nat option"
  workbench :: "nat option"

record IPerspectiveBarState =
  counter :: int
  error :: bool
  perspectives :: "(string \<times> IPerspective) list option"
  promise :: "nat option"
  selectedPerspectiveId :: "string option"

text \<open>
  What the component asks of its collaborators, in the order it asks: the calls on the
  storage, on the workbench and its environment, the \<open>onChange\<close> callback, the
  console warnings, and an error thrown out of a handler (for an asynchronous function:
  the rejection of the promise it returned).
\<close>

datatype effect =
    Warn string
  | Throws string
  | StorageMap nat
  | StorageLoad nat string
  | StorageSave nat IPerspective
  | StorageUpdate nat string IWorkbenchState
  | StoragePersist nat string
  | StorageRevert nat string
  | StorageSubscribe nat
  | StorageUnsubscribe nat
  | WorkbenchOn nat
  | WorkbenchOff nat
  | RestoreState nat IWorkbenchState
  | EnvConfirm nat string
  | EnvCreating nat IPerspective
  | OnChangeCalled string

text \<open>
  An asynchronous function stops at each \<open>await\<close>; what is left of it, with the
  variables it has captured, waits for the answer. \<open>AwaitEnumerate p\<close> stands for the two
  handlers that \<open>_startLoadingIfNeeded\<close> attaches to the promise \<open>p\<close> of
  \<open>storage.map\<close>.
\<close>

datatype continuation =
    AwaitEnumerate nat
  | AwaitLoad string
  | AwaitRevertConfirm nat string
  | AwaitRevertModifications string
  | AwaitCreateConfirm
  | AwaitSave IPerspective
  | AwaitUpdate nat string IWorkbenchState bool
  | AwaitNothing

datatype lifecycle = Constructed | Mounted | Unmounted

text \<open>
  The instance: \<open>this.props\<close>, \<open>this.state\<close>, the four private fields, and what
  the runtime keeps for it: where it is in its life, the state updates requested and not
  yet applied, the suspended continuations, the next fresh promise, and the calls made so
  far.
\<close>

record PerspectiveBar =
  props :: IPerspectiveBarProps
  state :: IPerspectiveBarState
  ignoreStateChangeCounter :: int
  lastState :: "IWorkbenchState option"
  storageField :: "nat option"
  workbenchField :: "nat option"
  phase :: lifecycle
  updates :: "IPerspectiveBarState option"
  pending :: "continuation list"
  nextPromise :: nat
  trace :: "effect list"

definition emit :: "effect \<Rightarrow> PerspectiveBar \<Rightarrow> PerspectiveBar" where
  "emit e s = s\<lparr>trace := trace s @ [e]\<rparr>"

definition suspend :: "continuation \<Rightarrow> PerspectiveBar \<Rightarrow> PerspectiveBar" where
  "suspend k s = s\<lparr>pending := pending s @ [k]\<rparr>"

text \<open>
  \<open>setState\<close> merges a partial state into the state that the next render will see;
  \<open>this.state\<close> itself changes when the update is applied (see \<open>settle\<close>). React
  ignores the state updates of a component that is not mounted.
\<close>

definition setState :: "(IPerspectiveBarState \<Rightarrow> IPerspectiveBarState) \<Rightarrow> PerspectiveBar \<Rightarrow> PerspectiveBar" where
  "setState upd s =
     (if phase s = Mounted
      then s\<lparr>updates := Some (upd (case updates s of None \<Rightarrow> state s | Some a \<Rightarrow> a))\<rparr>
      else s)"

definition getDerivedStateFromProps :: "IPerspectiveBarProps \<Rightarrow> IPerspectiveBarState \<Rightarrow> IPerspectiveBarState" where
  "getDerivedStateFromProps p st =
     (case selectedPerspectiveIdProp p of
        Some v \<Rightarrow> st\<lparr>selectedPerspectiveId := v\<rparr>
      | None \<Rightarrow> st)"

definition constructor :: "IPerspectiveBarProps \<Rightarrow> PerspectiveBar" where
  "constructor p =
     \<lparr>props = p,
      state = \<lparr>counter = 0, error = False, perspectives = None, promise = None,
               selectedPerspectiveId = None\<rparr>,
      ignoreStateChangeCounter = 0,
      lastState = None,
      storageField = None,
      workbenchField = None,
      phase = Constructed,
      updates = None,
      pending = [],
      nextPromise = 0,
      trace = []\<rparr>"

subsection \<open>The methods\<close>

definition cancelLoading :: "PerspectiveBar \<Rightarrow> PerspectiveBar" where
  "cancelLoading s = setState (\<lambda>st. st\<lparr>promise := None\<rparr>) s"

definition forceReload :: "PerspectiveBar \<Rightarrow> PerspectiveBar" where
  "forceReload s =
     (let c = counter (state s)
      in setState (\<lambda>st. st\<lparr>counter := 1 - c, error := False, perspectives := None,
                            promise := None\<rparr>) s)"

definition setStorage :: "nat option \<Rightarrow> PerspectiveBar \<Rightarrow> PerspectiveBar" where
  "setStorage v s =
     (if storageField s = v then s
      else
        let s1 = (case storageField s of Some a \<Rightarrow> emit (StorageUnsubscribe a) s | None \<Rightarrow> s);
            s2 = forceReload (s1\<lparr>storageField := v\<rparr>)
        in (case v of Some b \<Rightarrow> emit (StorageSubscribe b) s2 | None \<Rightarrow> s2))"

definition setWorkbench :: "nat option \<Rightarrow> PerspectiveBar \<Rightarrow> PerspectiveBar" where
  "setWorkbench v s =
     (if workbenchField s = v then s
      else
        let s1 = (case workbenchField s of Some a \<Rightarrow> emit (WorkbenchOff a) s | None \<Rightarrow> s);
            s2 = s1\<lparr>workbenchField := v\<rparr>
        in (case v of Some b \<Rightarrow> emit (WorkbenchOn b) s2 | None \<Rightarrow> s2))"

definition startLoadingIfNeeded :: "PerspectiveBar \<Rightarrow> PerspectiveBar" where
  "startLoadingIfNeeded s =
     (case storage (props s) of
        None \<Rightarrow> s
      | Some sto \<Rightarrow>
          if promise (state s) = None \<and> perspectives (state s) = None
          then
            let p = nextPromise s;
                s1 = suspend (AwaitEnumerate p) (emit (StorageMap sto) s)
            in setState (\<lambda>st. st\<lparr>promise := Some p\<rparr>) (s1\<lparr>nextPromise := p + 1\<rparr>)
          else s)"

definition enumerateResolved :: "(string \<times> IPerspective) list \<Rightarrow> PerspectiveBar \<Rightarrow> PerspectiveBar" where
  "enumerateResolved newPerspectives s =
     setState (\<lambda>st. st\<lparr>error := False, perspectives := Some newPerspectives, promise := None\<rparr>) s"

definition enumerateRejected :: "PerspectiveBar \<Rightarrow> PerspectiveBar" where
  "enumerateRejected s =
     emit (Throws ''err'') (setState (\<lambda>st. st\<lparr>error := True, promise := None\<rparr>) s)"

definition componentDidMount :: "PerspectiveBar \<Rightarrow> PerspectiveBar" where
  "componentDidMount s =
     startLoadingIfNeeded (setWorkbench (workbench (props s)) (setStorage (storage (props s)) s))"

definition componentDidUpdate :: "PerspectiveBar \<Rightarrow> PerspectiveBar" where
  "componentDidUpdate s =
     startLoadingIfNeeded (setWorkbench (workbench (props s)) (setStorage (storage (props s)) s))"

definition componentWillUnmount :: "PerspectiveBar \<Rightarrow> PerspectiveBar" where
  "componentWillUnmount s = cancelLoading (setWorkbench None (setStorage None s))"

definition requestSelectedPerspectiveIdChange :: "string \<Rightarrow> PerspectiveBar \<Rightarrow> PerspectiveBar \<times> bool" where
  "requestSelectedPerspectiveIdChange ident s =
     (if selectedPerspectiveIdProp (props s) = None
      then (setState (\<lambda>st. st\<lparr>selectedPerspectiveId := Some ident\<rparr>) s, True)
      else
        (case onChange (props s) of
           Some f \<Rightarrow> (emit (OnChangeCalled ident) s, \<not> f ident)
         | None \<Rightarrow> (s, False)))"

definition currentPerspectiveNeedsSavingAfterChange :: "IWorkbenchState \<Rightarrow> PerspectiveBar \<Rightarrow> bool" where
  "currentPerspectiveNeedsSavingAfterChange newState s =
     (selectedPerspectiveId (state s) \<noteq> None \<and>
      (case lastState s of
         None \<Rightarrow> False
       | Some l \<Rightarrow> \<not> areWorkbenchStatesEqualIgnoringSelection l newState))"

definition updateCurrentPerspectiveWith :: "IWorkbenchState \<Rightarrow> bool \<Rightarrow> PerspectiveBar \<Rightarrow> PerspectiveBar" where
  "updateCurrentPerspectiveWith newState persist s =
     (case storage (props s) of
        None \<Rightarrow> emit (Warn ''No perspective storage while saving perspective; this is probably a bug.'') s
      | Some sto \<Rightarrow>
          (case selectedPerspectiveId (state s) of
             Some sel \<Rightarrow> suspend (AwaitUpdate sto sel newState persist) (emit (StorageUpdate sto sel newState) s)
           | None \<Rightarrow> s))"

definition updateResumed :: "nat \<Rightarrow> string \<Rightarrow> IWorkbenchState \<Rightarrow> bool \<Rightarrow> PerspectiveBar \<Rightarrow> PerspectiveBar" where
  "updateResumed sto sel newState persist s =
     (let s1 = s\<lparr>lastState := Some newState\<rparr>
      in if persist then suspend AwaitNothing (emit (StoragePersist sto sel) s1) else s1)"

text \<open>
  \<open>workbench.getState()\<close> is answered by the workbench; the answer is an argument of
  the methods that ask. Asking a workbench that is not there is a \<open>TypeError\<close>.
\<close>

definition updateCurrentPerspective :: "bool \<Rightarrow> IWorkbenchState \<Rightarrow> PerspectiveBar \<Rightarrow> PerspectiveBar" where
  "updateCurrentPerspective persist current s =
     (case workbench (props s) of
        None \<Rightarrow> emit (Throws ''TypeError'') s
      | Some w \<Rightarrow> updateCurrentPerspectiveWith current persist s)"

definition persistModificationsOfCurrentPerspective :: "IWorkbenchState \<Rightarrow> PerspectiveBar \<Rightarrow> PerspectiveBar" where
  "persistModificationsOfCurrentPerspective current s = updateCurrentPerspective True current s"

definition onWorkbenchChanged :: "IWorkbenchState \<Rightarrow> PerspectiveBar \<Rightarrow> PerspectiveBar" where
  "onWorkbenchChanged current s =
     (if ignoreStateChangeCounter s > 0
      then s\<lparr>ignoreStateChangeCounter := ignoreStateChangeCounter s - 1\<rparr>
      else
        (case workbench (props s) of
           None \<Rightarrow> emit (Throws ''TypeError'') s
         | Some w \<Rightarrow>
             if currentPerspectiveNeedsSavingAfterChange current s
             then updateCurrentPerspectiveWith current False s
             else s))"

definition onStorageChanged :: "PerspectiveBar \<Rightarrow> PerspectiveBar" where
  "onStorageChanged s = (let c = counter (state s) in setState (\<lambda>st. st\<lparr>counter := 1 - c\<rparr>) s)"

text \<open>
  \<open>workbench.restoreState\<close> makes the workbench announce a state change. When it does
  so before it returns (\<open>sync\<close>), the handler subscribed to that workbench runs inside
  the call; otherwise the announcement is an event of its own, later.
\<close>

definition restoreState :: "nat \<Rightarrow> IWorkbenchState \<Rightarrow> bool \<Rightarrow> IWorkbenchState \<Rightarrow> PerspectiveBar \<Rightarrow> PerspectiveBar" where
  "restoreState w st sync current s =
     (let s1 = emit (RestoreState w st) s
      in if sync \<and> workbenchField s1 = Some w then onWorkbenchChanged current s1 else s1)"

definition loadPerspectiveById :: "string \<Rightarrow> PerspectiveBar \<Rightarrow> PerspectiveBar" where
  "loadPerspectiveById ident s =
     (case storage (props s) of
        Some sto \<Rightarrow> suspend (AwaitLoad ident) (emit (StorageLoad sto ident) s)
      | None \<Rightarrow> emit (Warn ''No perspective storage while loading perspective by ID; this is probably a bug.'') s)"

definition loadPerspectiveByIdResumed :: "string \<Rightarrow> IPerspective \<Rightarrow> bool \<Rightarrow> IWorkbenchState \<Rightarrow> PerspectiveBar \<Rightarrow> PerspectiveBar" where
  "loadPerspectiveByIdResumed ident perspective sync current s =
     (case workbench (props s) of
        Some w \<Rightarrow>
          let s1 = s\<lparr>ignoreStateChangeCounter := ignoreStateChangeCounter s + 1\<rparr>;
              s2 = restoreState w (pstate perspective) sync current s1;
              s3 = s2\<lparr>lastState := Some current\<rparr>
          in setState (\<lambda>st. st\<lparr>selectedPerspectiveId := Some ident\<rparr>) s3
      | None \<Rightarrow>
          emit (Throws ''TypeError'')
            (emit (Warn ''Workbench is gone while the perspective was being loaded; this is probably a bug.'') s))"

definition revertModificationsOfCurrentPerspective :: "bool \<Rightarrow> PerspectiveBar \<Rightarrow> PerspectiveBar" where
  "revertModificationsOfCurrentPerspective isModified s =
     (case storage (props s) of
        Some sto \<Rightarrow>
          (case selectedPerspectiveId (state s) of
             Some sel \<Rightarrow>
               if isModified
               then
                 (case workbench (props s) of
                    Some w \<Rightarrow>
                      suspend (AwaitRevertConfirm sto sel)
                        (emit (EnvConfirm w ''Are you sure you want to revert the perspective to its last saved state?'') s)
                  | None \<Rightarrow> emit (Throws ''TypeError'') s)
               else s
           | None \<Rightarrow> s)
      | None \<Rightarrow> emit (Warn ''No perspective storage while reverting perspective by ID; this is probably a bug.'') s)"

definition revertConfirmed :: "nat \<Rightarrow> string \<Rightarrow> bool \<Rightarrow> PerspectiveBar \<Rightarrow> PerspectiveBar" where
  "revertConfirmed sto sel confirmation s =
     (if confirmation
      then suspend (AwaitRevertModifications sel) (emit (StorageRevert sto sel) s)
      else s)"

definition revertReverted :: "string \<Rightarrow> PerspectiveBar \<Rightarrow> PerspectiveBar" where
  "revertReverted sel s = loadPerspectiveById sel s"

definition onPerspectiveButtonClicked :: "string \<Rightarrow> bool \<Rightarrow> PerspectiveBar \<Rightarrow> PerspectiveBar" where
  "onPerspectiveButtonClicked ident isModified s =
     (if selectedPerspectiveId (state s) = Some ident
      then revertModificationsOfCurrentPerspective isModified s
      else
        (case onChange (props s) of
           None \<Rightarrow> loadPerspectiveById ident s
         | Some f \<Rightarrow>
             let s1 = emit (OnChangeCalled ident) s
             in if \<not> f ident then loadPerspectiveById ident s1 else s1))"

definition createNewPerspective :: "IWorkbenchState \<Rightarrow> PerspectiveBar \<Rightarrow> PerspectiveBar" where
  "createNewPerspective current s =
     (case workbench (props s) of
        None \<Rightarrow> emit (Throws ''TypeError'') s
      | Some w \<Rightarrow>
          let perspective = \<lparr>color = None, pstate = current, icon = None, label = ''''\<rparr>
          in suspend AwaitCreateConfirm (emit (EnvCreating w perspective) s))"

text \<open>
  The environment is handed the draft object and may fill it in; \<open>perspective\<close> is the
  draft as the environment left it.
\<close>

definition createConfirmed :: "IPerspective \<Rightarrow> bool \<Rightarrow> PerspectiveBar \<Rightarrow> PerspectiveBar" where
  "createConfirmed perspective confirmation s =
     (if confirmation
      then
        (case storage (props s) of
           Some sto \<Rightarrow> suspend (AwaitSave perspective) (emit (StorageSave sto perspective) s)
         | None \<Rightarrow> emit (Warn ''No perspective storage while creating new perspective; this is probably a bug.'') s)
      else s)"

definition createSaved :: "IPerspective \<Rightarrow> string \<Rightarrow> PerspectiveBar \<Rightarrow> PerspectiveBar" where
  "createSaved perspective ident s =
     (let s1 = fst (requestSelectedPerspectiveIdChange ident s)
      in s1\<lparr>lastState := Some (pstate perspective)\<rparr>)"

subsection \<open>Rendering and updating\<close>

text \<open>
  After a handler has run, React applies the state updates it requested: the new state
  goes through \<open>getDerivedStateFromProps\<close>, the component renders, and
  \<open>componentDidUpdate\<close> runs, which may request updates again. \<open>settle\<close> repeats
  this until no update is left. It ends: the second round finds the storage field equal
  to the prop, and the third finds the promise set.
\<close>

definition needsLoading :: "IPerspectiveBarProps \<Rightarrow> IPerspectiveBarState \<Rightarrow> bool" where
  "needsLoading p st = (storage p \<noteq> None \<and> promise st = None \<and> perspectives st = None)"

definition settleMeasure :: "PerspectiveBar \<Rightarrow> nat" where
  "settleMeasure s =
     (case updates s of
        None \<Rightarrow> 0
      | Some a \<Rightarrow>
          1 + (if storageField s = storage (props s) then 0 else 2)
            + (if needsLoading (props s) a then 1 else 0))"

function settle :: "PerspectiveBar \<Rightarrow> PerspectiveBar" where
  "settle s =
     (case updates s of
        None \<Rightarrow> s
      | Some a \<Rightarrow>
          settle (componentDidUpdate
                    (s\<lparr>state := getDerivedStateFromProps (props s) a, updates := None\<rparr>)))"
  by pat_completeness auto
termination
proof (relation "measure settleMeasure")
  show "wf (measure settleMeasure)" by simp
next
  fix s :: PerspectiveBar and a
  assume u: "updates s = Some a"
  let ?s1 = "s\<lparr>state := getDerivedStateFromProps (props s) a, updates := None\<rparr>"
  have sto: "\<And>v t. storageField (setStorage v t) = v \<and> props (setStorage v t) = props t"
    by (simp add: setStorage_def forceReload_def setState_def emit_def Let_def split: option.splits)
  have same: "\<And>v t. storageField t = v \<Longrightarrow> setStorage v t = t"
    by (simp add: setStorage_def)
  have wb: "\<And>v t. storageField (setWorkbench v t) = storageField t \<and>
      props (setWorkbench v t) = props t \<and> updates (setWorkbench v t) = updates t \<and>
      state (setWorkbench v t) = state t \<and> phase (setWorkbench v t) = phase t"
    by (simp add: setWorkbench_def emit_def Let_def split: option.splits)
  have ld: "\<And>t. storageField (startLoadingIfNeeded t) = storageField t \<and>
      props (startLoadingIfNeeded t) = props t"
    by (simp add: startLoadingIfNeeded_def setState_def emit_def suspend_def Let_def
        split: option.splits)
  have ldu: "\<And>t. updates t = None \<Longrightarrow>
      updates (startLoadingIfNeeded t) =
        (if needsLoading (props t) (state t) \<and> phase t = Mounted
         then Some ((state t)\<lparr>promise := Some (nextPromise t)\<rparr>) else None)"
    by (simp add: startLoadingIfNeeded_def needsLoading_def setState_def emit_def suspend_def
        Let_def split: option.splits)
  have gd: "promise (getDerivedStateFromProps (props s) a) = promise a \<and>
      perspectives (getDerivedStateFromProps (props s) a) = perspectives a"
    by (simp add: getDerivedStateFromProps_def split: option.splits)
  show "(componentDidUpdate ?s1, s) \<in> measure settleMeasure"
  proof (cases "storageField s = storage (props s)")
    case True
    then have "settleMeasure (componentDidUpdate ?s1) =
        (if needsLoading (props s) a \<and> phase s = Mounted then 1 else 0)"
      by (simp add: settleMeasure_def componentDidUpdate_def same wb ld ldu gd needsLoading_def)
    moreover have "settleMeasure s = 1 + (if needsLoading (props s) a then 1 else 0)"
      using u True by (simp add: settleMeasure_def)
    ultimately show ?thesis by simp
  next
    case False
    have "settleMeasure (componentDidUpdate ?s1) \<le> 2"
      by (simp add: settleMeasure_def componentDidUpdate_def sto wb ld split: option.splits)
    moreover have "settleMeasure s \<ge> 3" using u False by (simp add: settleMeasure_def)
    ultimately show ?thesis by simp
  qed
qed

declare settle.simps [simp del]

subsection \<open>Events\<close>

text \<open>
  What the collaborators answer to a suspended continuation: the enumerated list, the
  loaded perspective (with whether the workbench announced the restored state before
  \<open>restoreState\<close> returned, and the state it reports afterwards), a confirmation, the
  draft as the environment left it with its confirmation, the id that \<open>save\<close>
  assigned, a plain completion, or a rejection.
\<close>

datatype answer =
    Listed "(string \<times> IPerspective) list"
  | Loaded IPerspective bool IWorkbenchState
  | Confirmed bool
  | Drafted IPerspective bool
  | Saved string
  | Completed
  | Rejected

fun resume :: "continuation \<Rightarrow> answer \<Rightarrow> PerspectiveBar \<Rightarrow> PerspectiveBar option" where
  "resume (AwaitEnumerate p) (Listed l) s = Some (enumerateResolved l s)"
| "resume (AwaitEnumerate p) Rejected s = Some (enumerateRejected s)"
| "resume (AwaitLoad ident) (Loaded perspective sync current) s =
     Some (loadPerspectiveByIdResumed ident perspective sync current s)"
| "resume (AwaitRevertConfirm sto sel) (Confirmed c) s = Some (revertConfirmed sto sel c s)"
| "resume (AwaitRevertModifications sel) Completed s = Some (revertReverted sel s)"
| "resume AwaitCreateConfirm (Drafted perspective c) s = Some (createConfirmed perspective c s)"
| "resume (AwaitSave perspective) (Saved ident) s = Some (createSaved perspective ident s)"
| "resume (AwaitUpdate sto sel newState persist) Completed s =
     Some (updateResumed sto sel newState persist s)"
| "resume AwaitNothing Completed s = Some s"
| "resume k Rejected s = Some (emit (Throws ''rejected'') s)"
| "resume k a s = None"

text \<open>
  The events of a component's life. A click reaches a handler only when \<open>render\<close> has
  drawn the button: a perspective button for each loaded perspective, the new and save
  buttons beside a loaded list (the save button is disabled without a storage; with one,
  whether it is enabled is the storage's answer to \<open>isModified\<close>, which the
  model leaves open), the reload button when there is no list and the error flag is set.
  The answer of \<open>storage.isModified\<close> to a click on a perspective button and
  the answer of \<open>workbench.getState()\<close> come with the event. A notification
  reaches a handler only while the component is subscribed. The constructor's state goes
  through \<open>getDerivedStateFromProps\<close> before the first render, and so does the
  state at every change of the props and at every applied update.
\<close>

datatype event =
    DidMount
  | NewProps IPerspectiveBarProps
  | WillUnmount
  | ClickPerspective string bool
  | ClickNew IWorkbenchState
  | ClickSave IWorkbenchState
  | ClickReload
  | StateChanged IWorkbenchState
  | StorageChanged
  | Resolve nat answer

definition hasButton :: "string \<Rightarrow> PerspectiveBar \<Rightarrow> bool" where
  "hasButton ident s =
     (case perspectives (state s) of
        None \<Rightarrow> False
      | Some l \<Rightarrow> ident \<in> set (map fst l))"

fun step :: "PerspectiveBar \<Rightarrow> event \<Rightarrow> PerspectiveBar" where
  "step s DidMount =
     (if phase s = Constructed
      then settle (componentDidMount
                     (s\<lparr>phase := Mounted, state := getDerivedStateFromProps (props s) (state s)\<rparr>))
      else s)"
| "step s (NewProps p) =
     (if phase s = Mounted
      then settle (componentDidUpdate
                     (s\<lparr>props := p, state := getDerivedStateFromProps p (state s)\<rparr>))
      else s)"
| "step s WillUnmount =
     (if phase s = Mounted
      then (componentWillUnmount s)\<lparr>updates := None, phase := Unmounted\<rparr>
      else s)"
| "step s (ClickPerspective ident isModified) =
     (if phase s = Mounted \<and> hasButton ident s
      then settle (onPerspectiveButtonClicked ident isModified s)
      else s)"
| "step s (ClickNew current) =
     (if phase s = Mounted \<and> perspectives (state s) \<noteq> None
      then settle (createNewPerspective current s)
      else s)"
| "step s (ClickSave current) =
     (if phase s = Mounted \<and> perspectives (state s) \<noteq> None \<and> storage (props s) \<noteq> None
      then settle (persistModificationsOfCurrentPerspective current s)
      else s)"
| "step s ClickReload =
     (if phase s = Mounted \<and> perspectives (state s) = None \<and> error (state s)
      then settle (forceReload s)
      else s)"
| "step s (StateChanged current) =
     (if workbenchField s \<noteq> None then settle (onWorkbenchChanged current s) else s)"
| "step s StorageChanged =
     (if storageField s \<noteq> None then settle (onStorageChanged s) else s)"
| "step s (Resolve i a) =
     (if i < length (pending s)
      then
        (case resume (pending s ! i) a (s\<lparr>pending := take i (pending s) @ drop (Suc i) (pending s)\<rparr>) of
           Some s' \<Rightarrow> settle s'
         | None \<Rightarrow> s)
      else s)"

definition run :: "PerspectiveBar \<Rightarrow> event list \<Rightarrow> PerspectiveBar" where
  "run s es = foldl step s es"

inductive reachable :: "PerspectiveBar \<Rightarrow> bool" where
  reachable_init: "reachable (constructor p)"
| reachable_step: "reachable s \<Longrightarrow> reachable (step s e)"

subsection \<open>Observations and invariants\<close>

text \<open>
  What the theorems below say about a bar: the state that the next render will see, the
  state a forced reload asks for, whether the private fields agree with the props, the
  storages enumerated and the updates written according to a trace, the calls and
  continuations that can record a baseline state, the message of the revert prompt, and
  the runs in which no enumeration fails after it has been superseded (a completion is
  superseded when its promise is no longer the in-flight marker).
\<close>

definition revertMessage :: string where
  "revertMessage = ''Are you sure you want to revert the perspective to its last saved state?''"

definition wired :: "PerspectiveBar \<Rightarrow> bool" where
  "wired s = (storageField s = storage (props s) \<and> workbenchField s = workbench (props s))"

definition nextState :: "PerspectiveBar \<Rightarrow> IPerspectiveBarState" where
  "nextState s = (case updates s of None \<Rightarrow> state s | Some a \<Rightarrow> a)"

fun enumerated :: "effect \<Rightarrow> nat option" where
  "enumerated (StorageMap sto) = Some sto"
| "enumerated _ = None"

definition enumerations :: "effect list \<Rightarrow> nat list" where
  "enumerations tr = List.map_filter enumerated tr"

definition reloaded :: "IPerspectiveBarState \<Rightarrow> IPerspectiveBarState" where
  "reloaded st = st\<lparr>counter := 1 - counter st, error := False, perspectives := None, promise := None\<rparr>"

fun baselineCall :: "effect \<Rightarrow> bool" where
  "baselineCall (StorageLoad sto ident) = True"
| "baselineCall (StorageSave sto p) = True"
| "baselineCall (StorageUpdate sto ident st) = True"
| "baselineCall _ = False"

fun awaitsBaseline :: "continuation \<Rightarrow> bool" where
  "awaitsBaseline (AwaitLoad ident) = True"
| "awaitsBaseline (AwaitSave p) = True"
| "awaitsBaseline (AwaitUpdate sto ident st persist) = True"
| "awaitsBaseline _ = False"

fun updateWritten :: "effect \<Rightarrow> (string \<times> IWorkbenchState) option" where
  "updateWritten (StorageUpdate sto ident st) = Some (ident, st)"
| "updateWritten _ = None"

definition storageUpdates :: "effect list \<Rightarrow> (string \<times> IWorkbenchState) list" where
  "storageUpdates tr = List.map_filter updateWritten tr"

definition baselineJustified :: "PerspectiveBar \<Rightarrow> bool" where
  "baselineJustified s =
     (list_ex baselineCall (trace s) \<or>
      (lastState s = None \<and> \<not> list_ex awaitsBaseline (pending s)))"

definition promiseFresh :: "PerspectiveBar \<Rightarrow> bool" where
  "promiseFresh s = (case promise (nextState s) of None \<Rightarrow> True | Some p \<Rightarrow> p < nextPromise s)"

definition lateFailure :: "PerspectiveBar \<Rightarrow> event \<Rightarrow> bool" where
  "lateFailure s e =
     (case e of
        Resolve i a \<Rightarrow>
          (case a of
             Rejected \<Rightarrow>
               i < length (pending s) \<and>
               (case pending s ! i of
                  AwaitEnumerate p \<Rightarrow> promise (state s) \<noteq> Some p
                | _ \<Rightarrow> False)
           | _ \<Rightarrow> False)
      | _ \<Rightarrow> False)"

inductive reachableTimely :: "PerspectiveBar \<Rightarrow> bool" where
  timely_init: "reachableTimely (constructor p)"
| timely_step: "reachableTimely s \<Longrightarrow> \<not> lateFailure s e \<Longrightarrow> reachableTimely (step s e)"

fun timely :: "PerspectiveBar \<Rightarrow> event list \<Rightarrow> bool" where
  "timely s [] = True"
| "timely s (e # es) = (\<not> lateFailure s e \<and> timely (step s e) es)"

definition exclusive :: "IPerspectiveBarState \<Rightarrow> bool" where
  "exclusive st =
     ((error st \<longrightarrow> perspectives st = None) \<and> (promise st \<noteq> None \<longrightarrow> perspectives st = None))"

subsection \<open>Scenarios\<close>

text \<open>
  Concrete bars for the witnesses and counterexamples. The basic one is mounted on storage
  0 and workbench 0, uncontrolled; the storage lists one perspective \<open>A\<close>
  (\<open>exampleListed\<close>); the user clicks it, the storage delivers it and the
  workbench is restored (\<open>exampleRestoring\<close>); the notification of the restore
  arrives (\<open>exampleEditing\<close>). The others: the storage is taken away while a
  draft is with the environment; a creation is under way, uncontrolled and controlled;
  the storage is swapped while the first enumeration is in flight; the first enumeration
  fails, and the user asks for a reload while the automatic retry is in flight; a
  controlled bar has just created a perspective.
\<close>

definition exampleState :: IWorkbenchState where
  "exampleState = JObj [(''content'', JStr ''editor''), (''selection'', JNum 0)]"

definition examplePerspective :: IPerspective where
  "examplePerspective = \<lparr>color = None, pstate = exampleState, icon = None, label = ''A''\<rparr>"

definition exampleProps :: IPerspectiveBarProps where
  "exampleProps = \<lparr>errorMessage = None, onChange = None, selectedPerspectiveIdProp = None,
                    storage = Some 0, workbench = Some 0\<rparr>"

definition exampleListed :: PerspectiveBar where
  "exampleListed = run (constructor exampleProps)
     [DidMount, Resolve 0 (Listed [(''A'', examplePerspective)])]"

definition exampleRestoring :: PerspectiveBar where
  "exampleRestoring = run exampleListed
     [ClickPerspective ''A'' False, Resolve 0 (Loaded examplePerspective False exampleState)]"

definition otherPerspective :: IPerspective where
  "otherPerspective =
     \<lparr>color = None, pstate = JObj [(''content'', JStr ''viewer'')], icon = None, label = ''B''\<rparr>"

definition exampleDraft :: IPerspective where
  "exampleDraft = \<lparr>color = None, pstate = exampleState, icon = None, label = ''''\<rparr>"

definition exampleUnplugged :: PerspectiveBar where
  "exampleUnplugged = run exampleListed [ClickNew exampleState, NewProps (exampleProps\<lparr>storage := None\<rparr>)]"

definition exampleCreating :: PerspectiveBar where
  "exampleCreating = run exampleListed [ClickNew exampleState]"

definition exampleSaving :: PerspectiveBar where
  "exampleSaving = run exampleCreating [Resolve 0 (Drafted examplePerspective True)]"

definition exampleControlledProps :: IPerspectiveBarProps where
  "exampleControlledProps = exampleProps\<lparr>selectedPerspectiveIdProp := Some (Some ''A'')\<rparr>"

definition exampleControlledSaving :: PerspectiveBar where
  "exampleControlledSaving = run (constructor exampleControlledProps)
     [DidMount, Resolve 0 (Listed [(''A'', examplePerspective)]), ClickNew exampleState,
      Resolve 0 (Drafted examplePerspective True)]"

definition exampleControlledCreated :: PerspectiveBar where
  "exampleControlledCreated = run exampleControlledSaving [Resolve 0 (Saved ''B'')]"

definition exampleSwapProps :: IPerspectiveBarProps where
  "exampleSwapProps = exampleProps\<lparr>storage := Some 1\<rparr>"

definition exampleSwapped :: PerspectiveBar where
  "exampleSwapped = run (constructor exampleProps) [DidMount, NewProps exampleSwapProps]"

definition exampleEditing :: PerspectiveBar where
  "exampleEditing = run exampleRestoring [StateChanged exampleState]"

definition exampleControlledListed :: PerspectiveBar where
  "exampleControlledListed = run (constructor exampleControlledProps)
     [DidMount, Resolve 0 (Listed [(''A'', examplePerspective)])]"

definition exampleFailed :: PerspectiveBar where
  "exampleFailed = run (constructor exampleProps) [DidMount, Resolve 0 Rejected]"

definition exampleRetried :: PerspectiveBar where
  "exampleRetried = run (constructor exampleProps) [DidMount, Resolve 0 Rejected, ClickReload]"

section \<open>Basic facts\<close>

lemmas handler_defs =
  componentDidMount_def componentDidUpdate_def componentWillUnmount_def cancelLoading_def
  forceReload_def setStorage_def setWorkbench_def startLoadingIfNeeded_def enumerateResolved_def
  enumerateRejected_def requestSelectedPerspectiveIdChange_def
  currentPerspectiveNeedsSavingAfterChange_def updateCurrentPerspectiveWith_def updateResumed_def
  updateCurrentPerspective_def persistModificationsOfCurrentPerspective_def onWorkbenchChanged_def
  onStorageChanged_def restoreState_def loadPerspectiveById_def loadPerspectiveByIdResumed_def
  revertModificationsOfCurrentPerspective_def revertConfirmed_def revertReverted_def
  onPerspectiveButtonClicked_def createNewPerspective_def createConfirmed_def createSaved_def
  hasButton_def getDerivedStateFromProps_def constructor_def emit_def suspend_def setState_def

lemma setStorage_field [simp]: "storageField (setStorage v s) = v"
  by (simp add: setStorage_def forceReload_def setState_def emit_def Let_def split: option.splits)

lemma setStorage_props [simp]: "props (setStorage v s) = props s"
  by (simp add: setStorage_def forceReload_def setState_def emit_def Let_def split: option.splits)

lemma setWorkbench_keeps [simp]:
  "storageField (setWorkbench v s) = storageField s"
  "props (setWorkbench v s) = props s"
  "updates (setWorkbench v s) = updates s"
  "state (setWorkbench v s) = state s"
  "phase (setWorkbench v s) = phase s"
  by (simp_all add: setWorkbench_def emit_def Let_def split: option.splits)

lemma startLoading_keeps [simp]:
  "storageField (startLoadingIfNeeded s) = storageField s"
  "props (startLoadingIfNeeded s) = props s"
  by (simp_all add: startLoadingIfNeeded_def setState_def emit_def suspend_def Let_def split: option.splits)

lemma setStorage_same [simp]: "storageField s = v \<Longrightarrow> setStorage v s = s"
  by (simp add: setStorage_def)

lemma startLoading_updates:
  "updates s = None \<Longrightarrow>
   updates (startLoadingIfNeeded s) =
     (if needsLoading (props s) (state s) \<and> phase s = Mounted
      then Some ((state s)\<lparr>promise := Some (nextPromise s)\<rparr>) else None)"
  by (simp add: startLoadingIfNeeded_def needsLoading_def setState_def emit_def suspend_def Let_def split: option.splits)

lemma needsLoading_gdsfp [simp]:
  "needsLoading p (getDerivedStateFromProps q st) = needsLoading p st"
  by (simp add: needsLoading_def getDerivedStateFromProps_def split: option.splits)

lemma settle_None: "updates s = None \<Longrightarrow> settle s = s"
  by (subst settle.simps) simp

lemma settle_Some:
  "updates s = Some a \<Longrightarrow>
   settle s = settle (componentDidUpdate (s\<lparr>state := getDerivedStateFromProps (props s) a, updates := None\<rparr>))"
  by (subst settle.simps) simp

lemma emit_frame [simp]:
  "props (emit e s) = props s"
  "state (emit e s) = state s"
  "ignoreStateChangeCounter (emit e s) = ignoreStateChangeCounter s"
  "lastState (emit e s) = lastState s"
  "storageField (emit e s) = storageField s"
  "workbenchField (emit e s) = workbenchField s"
  "phase (emit e s) = phase s"
  "updates (emit e s) = updates s"
  "pending (emit e s) = pending s"
  "nextPromise (emit e s) = nextPromise s"
  "trace (emit e s) = trace s @ [e]"
  by (simp_all add: emit_def)

lemma suspend_frame [simp]:
  "props (suspend k s) = props s"
  "state (suspend k s) = state s"
  "ignoreStateChangeCounter (suspend k s) = ignoreStateChangeCounter s"
  "lastState (suspend k s) = lastState s"
  "storageField (suspend k s) = storageField s"
  "workbenchField (suspend k s) = workbenchField s"
  "phase (suspend k s) = phase s"
  "updates (suspend k s) = updates s"
  "pending (suspend k s) = pending s @ [k]"
  "nextPromise (suspend k s) = nextPromise s"
  "trace (suspend k s) = trace s"
  by (simp_all add: suspend_def)

lemma setState_frame [simp]:
  "props (setState upd s) = props s"
  "state (setState upd s) = state s"
  "ignoreStateChangeCounter (setState upd s) = ignoreStateChangeCounter s"
  "lastState (setState upd s) = lastState s"
  "storageField (setState upd s) = storageField s"
  "workbenchField (setState upd s) = workbenchField s"
  "phase (setState upd s) = phase s"
  "pending (setState upd s) = pending s"
  "nextPromise (setState upd s) = nextPromise s"
  "trace (setState upd s) = trace s"
  by (simp_all add: setState_def)

lemma setStorage_frame [simp]:
  "ignoreStateChangeCounter (setStorage v s) = ignoreStateChangeCounter s"
  "lastState (setStorage v s) = lastState s"
  "phase (setStorage v s) = phase s"
  "workbenchField (setStorage v s) = workbenchField s"
  "pending (setStorage v s) = pending s"
  "nextPromise (setStorage v s) = nextPromise s"
  "state (setStorage v s) = state s"
  by (simp_all add: setStorage_def forceReload_def setState_def emit_def Let_def split: option.splits)

lemma setWorkbench_frame [simp]:
  "ignoreStateChangeCounter (setWorkbench v s) = ignoreStateChangeCounter s"
  "lastState (setWorkbench v s) = lastState s"
  "workbenchField (setWorkbench v s) = v"
  "pending (setWorkbench v s) = pending s"
  "nextPromise (setWorkbench v s) = nextPromise s"
  by (simp_all add: setWorkbench_def emit_def Let_def split: option.splits)

lemma startLoading_frame [simp]:
  "ignoreStateChangeCounter (startLoadingIfNeeded s) = ignoreStateChangeCounter s"
  "lastState (startLoadingIfNeeded s) = lastState s"
  "phase (startLoadingIfNeeded s) = phase s"
  "workbenchField (startLoadingIfNeeded s) = workbenchField s"
  "state (startLoadingIfNeeded s) = state s"
  by (simp_all add: startLoadingIfNeeded_def setState_def emit_def suspend_def Let_def split: option.splits)

lemma didUpdate_frame [simp]:
  "ignoreStateChangeCounter (componentDidUpdate s) = ignoreStateChangeCounter s"
  "lastState (componentDidUpdate s) = lastState s"
  "phase (componentDidUpdate s) = phase s"
  "props (componentDidUpdate s) = props s"
  "storageField (componentDidUpdate s) = storage (props s)"
  "workbenchField (componentDidUpdate s) = workbench (props s)"
  "state (componentDidUpdate s) = state s"
  by (simp_all add: componentDidUpdate_def)

lemma settle_frame [simp]:
  "ignoreStateChangeCounter (settle s) = ignoreStateChangeCounter s \<and>
   lastState (settle s) = lastState s \<and>
   phase (settle s) = phase s \<and>
   props (settle s) = props s"
proof (induction s rule: settle.induct)
  case (1 s)
  show ?case
  proof (cases "updates s")
    case None
    then show ?thesis by (simp add: settle_None)
  next
    case (Some a)
    then show ?thesis using 1[OF Some] by (simp add: settle_Some)
  qed
qed

lemma settle_updates [simp]: "updates (settle s) = None"
proof (induction s rule: settle.induct)
  case (1 s)
  show ?case
  proof (cases "updates s")
    case None
    then show ?thesis by (simp add: settle_None)
  next
    case (Some a)
    then show ?thesis using 1[OF Some] by (simp add: settle_Some)
  qed
qed

lemma onWorkbenchChanged_suppressed:
  "0 < ignoreStateChangeCounter s \<Longrightarrow>
   onWorkbenchChanged current s = s\<lparr>ignoreStateChangeCounter := ignoreStateChangeCounter s - 1\<rparr>"
  by (simp add: onWorkbenchChanged_def)

lemma updateWith_ignore [simp]:
  "ignoreStateChangeCounter (updateCurrentPerspectiveWith n b s) = ignoreStateChangeCounter s"
  by (simp add: updateCurrentPerspectiveWith_def split: option.splits)

lemma onWorkbenchChanged_nonneg:
  "0 \<le> ignoreStateChangeCounter s \<Longrightarrow> 0 \<le> ignoreStateChangeCounter (onWorkbenchChanged c s)"
  by (simp add: onWorkbenchChanged_def split: option.splits)

lemma loadById_ignore [simp]:
  "ignoreStateChangeCounter (loadPerspectiveById i s) = ignoreStateChangeCounter s"
  by (simp add: loadPerspectiveById_def split: option.splits)

lemma loadResumed_nonneg:
  "0 \<le> ignoreStateChangeCounter s \<Longrightarrow>
   0 \<le> ignoreStateChangeCounter (loadPerspectiveByIdResumed i p sync c s)"
  by (simp add: loadPerspectiveByIdResumed_def restoreState_def onWorkbenchChanged_def Let_def
      split: option.splits)

lemma resume_nonneg:
  "resume k a s = Some s' \<Longrightarrow> 0 \<le> ignoreStateChangeCounter s \<Longrightarrow> 0 \<le> ignoreStateChangeCounter s'"
  by (cases k; cases a)
     (auto simp: enumerateResolved_def enumerateRejected_def loadResumed_nonneg revertConfirmed_def
        revertReverted_def createConfirmed_def createSaved_def requestSelectedPerspectiveIdChange_def
        updateResumed_def Let_def split: option.splits if_splits)

lemma step_nonneg:
  "0 \<le> ignoreStateChangeCounter s \<Longrightarrow> 0 \<le> ignoreStateChangeCounter (step s e)"
proof (cases e)
  case (Resolve i a)
  then show "0 \<le> ignoreStateChangeCounter s \<Longrightarrow> ?thesis"
    by (auto split: option.splits dest: resume_nonneg)
qed (auto simp: componentDidMount_def componentWillUnmount_def cancelLoading_def
      onPerspectiveButtonClicked_def revertModificationsOfCurrentPerspective_def
      createNewPerspective_def persistModificationsOfCurrentPerspective_def
      updateCurrentPerspective_def forceReload_def onStorageChanged_def onWorkbenchChanged_nonneg
      Let_def split: option.splits)

lemma reachable_nonneg: "reachable s \<Longrightarrow> 0 \<le> ignoreStateChangeCounter s"
  by (induction rule: reachable.induct) (simp_all add: constructor_def step_nonneg)



lemma reachable_updates: "reachable s \<Longrightarrow> updates s = None"
proof (induction rule: reachable.induct)
  case (reachable_init p)
  then show ?case by (simp add: constructor_def)
next
  case (reachable_step s e)
  then show ?case by (cases e) (auto split: option.splits)
qed

lemma reachable_run: "reachable s \<Longrightarrow> reachable (run s es)"
  unfolding run_def
  by (induction es arbitrary: s) (auto intro: reachable.intros)

lemma reachable_exampleListed: "reachable exampleListed"
  unfolding exampleListed_def by (intro reachable_run reachable_init)

lemma reachable_exampleRestoring: "reachable exampleRestoring"
  unfolding exampleRestoring_def by (intro reachable_run reachable_exampleListed)

lemma loadResumed_async:
  "workbench (props s) = Some w \<Longrightarrow>
   loadPerspectiveByIdResumed ident p False now s =
     setState (\<lambda>st. st\<lparr>selectedPerspectiveId := Some ident\<rparr>)
       ((emit (RestoreState w (pstate p))
           (s\<lparr>ignoreStateChangeCounter := ignoreStateChangeCounter s + 1\<rparr>))\<lparr>lastState := Some now\<rparr>)"
  by (simp add: loadPerspectiveByIdResumed_def restoreState_def Let_def)

section \<open>The claims\<close>

text \<open>
  C1. A \<open>stateChanged\<close> notification that arrives while the suppression counter is
  positive only decrements the counter: no call is made, nothing is suspended, the state
  is otherwise the same (as a handler, and as a delivered event). A perspective load that
  resumes with the workbench present raises the counter by one just before
  \<open>restoreState\<close>; the notification that \<open>restoreState\<close> causes takes
  that one increment back and calls nothing, whether it arrives later as an event of its
  own or inside \<open>restoreState\<close>.
\<close>

theorem suppressed_notification_is_absorbed:
  assumes "reachable s"
  shows "(0 < ignoreStateChangeCounter s \<longrightarrow>
            onWorkbenchChanged current s =
              s\<lparr>ignoreStateChangeCounter := ignoreStateChangeCounter s - 1\<rparr>)
       \<and> (0 < ignoreStateChangeCounter s \<and> workbenchField s \<noteq> None \<longrightarrow>
            step s (StateChanged current) =
              s\<lparr>ignoreStateChangeCounter := ignoreStateChangeCounter s - 1\<rparr>)
       \<and> (workbench (props s) = Some w \<longrightarrow>
            (let s1 = loadPerspectiveByIdResumed ident p False now s;
                 s2 = onWorkbenchChanged current s1
             in ignoreStateChangeCounter s1 = ignoreStateChangeCounter s + 1 \<and>
                trace s1 = trace s @ [RestoreState w (pstate p)] \<and>
                s2 = s1\<lparr>ignoreStateChangeCounter := ignoreStateChangeCounter s\<rparr>))
       \<and> (workbench (props s) = Some w \<and> workbenchField s = Some w \<longrightarrow>
            loadPerspectiveByIdResumed ident p True now s =
              (loadPerspectiveByIdResumed ident p False now s)
                \<lparr>ignoreStateChangeCounter := ignoreStateChangeCounter s\<rparr>)"
proof -
  have nn: "0 \<le> ignoreStateChangeCounter s" using assms by (rule reachable_nonneg)
  have u: "updates s = None" using assms by (rule reachable_updates)
  have a: "0 < ignoreStateChangeCounter s \<longrightarrow>
            onWorkbenchChanged current s =
              s\<lparr>ignoreStateChangeCounter := ignoreStateChangeCounter s - 1\<rparr>"
    by (simp add: onWorkbenchChanged_suppressed)
  have b: "0 < ignoreStateChangeCounter s \<and> workbenchField s \<noteq> None \<longrightarrow>
            step s (StateChanged current) =
              s\<lparr>ignoreStateChangeCounter := ignoreStateChangeCounter s - 1\<rparr>"
    using u by (simp add: onWorkbenchChanged_suppressed settle_None)
  have c: "workbench (props s) = Some w \<longrightarrow>
            (let s1 = loadPerspectiveByIdResumed ident p False now s;
                 s2 = onWorkbenchChanged current s1
             in ignoreStateChangeCounter s1 = ignoreStateChangeCounter s + 1 \<and>
                trace s1 = trace s @ [RestoreState w (pstate p)] \<and>
                s2 = s1\<lparr>ignoreStateChangeCounter := ignoreStateChangeCounter s\<rparr>)"
    using nn by (simp add: loadResumed_async onWorkbenchChanged_suppressed Let_def)
  have d: "workbench (props s) = Some w \<and> workbenchField s = Some w \<longrightarrow>
            loadPerspectiveByIdResumed ident p True now s =
              (loadPerspectiveByIdResumed ident p False now s)
                \<lparr>ignoreStateChangeCounter := ignoreStateChangeCounter s\<rparr>"
    using nn
    by (simp add: loadPerspectiveByIdResumed_def restoreState_def onWorkbenchChanged_def
        setState_def emit_def Let_def split: option.splits)
  from a b c d show ?thesis by blast
qed

lemma exampleRestoring_facts:
  "ignoreStateChangeCounter exampleRestoring = 1"
  "workbenchField exampleRestoring = Some 0"
  "workbench (props exampleRestoring) = Some 0"
  "trace exampleRestoring =
     [StorageSubscribe 0, WorkbenchOn 0, StorageMap 0, StorageLoad 0 ''A'', RestoreState 0 exampleState]"
  by code_simp+

theorem suppressed_notification_is_absorbed_witness:
  "reachable exampleRestoring \<and> 0 < ignoreStateChangeCounter exampleRestoring \<and>
   workbenchField exampleRestoring \<noteq> None \<and>
   workbench (props exampleRestoring) = Some 0 \<and> workbenchField exampleRestoring = Some 0 \<and>
   onWorkbenchChanged exampleState exampleRestoring =
     exampleRestoring\<lparr>ignoreStateChangeCounter := 0\<rparr> \<and>
   step exampleRestoring (StateChanged exampleState) =
     exampleRestoring\<lparr>ignoreStateChangeCounter := 0\<rparr> \<and>
   trace (step exampleRestoring (StateChanged exampleState)) = trace exampleRestoring \<and>
   ignoreStateChangeCounter
     (loadPerspectiveByIdResumed ''A'' examplePerspective False exampleState exampleRestoring) = 2 \<and>
   ignoreStateChangeCounter
     (onWorkbenchChanged exampleState
        (loadPerspectiveByIdResumed ''A'' examplePerspective False exampleState exampleRestoring)) = 1 \<and>
   ignoreStateChangeCounter
     (loadPerspectiveByIdResumed ''A'' examplePerspective True exampleState exampleRestoring) = 1"
  using suppressed_notification_is_absorbed [OF reachable_exampleRestoring,
      of exampleState 0 "''A''" examplePerspective exampleState]
  by (simp add: exampleRestoring_facts reachable_exampleRestoring Let_def del: step.simps)






lemma step_Resolve_last:
  "resume k a (s\<lparr>pending := ps\<rparr>) = Some s' \<Longrightarrow> pending s = ps @ [k] \<Longrightarrow>
   step s (Resolve (length ps) a) = settle s'"
  by simp

lemma suspend_pending_update [simp]: "(suspend k s)\<lparr>pending := ps\<rparr> = s\<lparr>pending := ps\<rparr>"
  by (simp add: suspend_def)

lemma emit_pending_same [simp]: "pending s = ps \<Longrightarrow> (emit e s)\<lparr>pending := ps\<rparr> = emit e s"
  by (simp add: emit_def)

text \<open>
  C2. A click on the button of the perspective that is already selected never reaches
  \<open>storage.load\<close> directly. With the storage and the workbench present: when the
  storage reports the perspective as unmodified the click changes nothing at all; when it
  reports it as modified the click only asks the environment for confirmation; a rejected
  confirmation ends there, with no call on the storage; an accepted one calls
  \<open>revertModifications\<close> for that id and, once that has completed,
  \<open>load\<close> for the same id.
\<close>

theorem click_on_selected_only_reverts:
  assumes r: "reachable s" and m: "phase s = Mounted" and b: "hasButton ident s"
    and sel: "selectedPerspectiveId (state s) = Some ident"
    and sto: "storage (props s) = Some sto" and wb: "workbench (props s) = Some w"
  shows "step s (ClickPerspective ident False) = s
     \<and> step s (ClickPerspective ident True) =
         suspend (AwaitRevertConfirm sto ident) (emit (EnvConfirm w revertMessage) s)
     \<and> run s [ClickPerspective ident True, Resolve (length (pending s)) (Confirmed False)] =
         emit (EnvConfirm w revertMessage) s
     \<and> run s [ClickPerspective ident True, Resolve (length (pending s)) (Confirmed True)] =
         suspend (AwaitRevertModifications ident)
           (emit (StorageRevert sto ident) (emit (EnvConfirm w revertMessage) s))
     \<and> run s [ClickPerspective ident True, Resolve (length (pending s)) (Confirmed True),
               Resolve (length (pending s)) Completed] =
         suspend (AwaitLoad ident)
           (emit (StorageLoad sto ident)
              (emit (StorageRevert sto ident) (emit (EnvConfirm w revertMessage) s)))"
proof -
  have u: "updates s = None" using r by (rule reachable_updates)
  let ?n = "length (pending s)"
  let ?s0 = "emit (EnvConfirm w revertMessage) s"
  let ?s1 = "suspend (AwaitRevertConfirm sto ident) ?s0"
  let ?s2 = "suspend (AwaitRevertModifications ident) (emit (StorageRevert sto ident) ?s0)"
  let ?s3 = "suspend (AwaitLoad ident) (emit (StorageLoad sto ident) (emit (StorageRevert sto ident) ?s0))"
  have c0: "step s (ClickPerspective ident False) = s"
    using u m b sel sto
    by (simp add: onPerspectiveButtonClicked_def revertModificationsOfCurrentPerspective_def
        settle_None)
  have c1: "step s (ClickPerspective ident True) = ?s1"
    using u m b sel sto wb
    by (simp add: onPerspectiveButtonClicked_def revertModificationsOfCurrentPerspective_def
        settle_None revertMessage_def)
  have p1: "pending ?s1 = pending s @ [AwaitRevertConfirm sto ident]" by simp
  have st0: "settle ?s0 = ?s0" using u by (simp add: settle_None)
  have st2: "settle ?s2 = ?s2" using u by (simp add: settle_None)
  have st3: "settle ?s3 = ?s3" using u by (simp add: settle_None)
  have "resume (AwaitRevertConfirm sto ident) (Confirmed False) (?s1\<lparr>pending := pending s\<rparr>) = Some ?s0"
    by (simp add: revertConfirmed_def)
  then have "step ?s1 (Resolve ?n (Confirmed False)) = settle ?s0"
    using p1 by (rule step_Resolve_last)
  then have no: "step ?s1 (Resolve ?n (Confirmed False)) = ?s0" using st0 by simp
  have "resume (AwaitRevertConfirm sto ident) (Confirmed True) (?s1\<lparr>pending := pending s\<rparr>) = Some ?s2"
    by (simp add: revertConfirmed_def)
  then have "step ?s1 (Resolve ?n (Confirmed True)) = settle ?s2"
    using p1 by (rule step_Resolve_last)
  then have yes: "step ?s1 (Resolve ?n (Confirmed True)) = ?s2" using st2 by simp
  have p2: "pending ?s2 = pending s @ [AwaitRevertModifications ident]" by simp
  have "resume (AwaitRevertModifications ident) Completed (?s2\<lparr>pending := pending s\<rparr>) = Some ?s3"
    using sto by (simp add: revertReverted_def loadPerspectiveById_def)
  then have "step ?s2 (Resolve ?n Completed) = settle ?s3"
    using p2 by (rule step_Resolve_last)
  then have fin: "step ?s2 (Resolve ?n Completed) = ?s3" using st3 by simp
  show ?thesis
    unfolding run_def using c0 c1 no yes fin by (simp del: step.simps)
qed

text \<open>
  C5, as amended. An operation that finds the storage absent logs one diagnostic and does
  nothing else: loading a perspective by id, saving (with or without persisting),
  reverting, and creating once the environment has confirmed the draft. The component is
  left as it was but for the logged warning. A draft that the environment rejects ends
  the creation before the storage is looked for, so nothing is logged then.
\<close>

theorem absent_storage_is_diagnosed:
  assumes "storage (props s) = None"
  shows "loadPerspectiveById ident s =
           s\<lparr>trace := trace s @ [Warn ''No perspective storage while loading perspective by ID; this is probably a bug.'']\<rparr>
       \<and> updateCurrentPerspectiveWith newState persist s =
           s\<lparr>trace := trace s @ [Warn ''No perspective storage while saving perspective; this is probably a bug.'']\<rparr>
       \<and> (workbench (props s) \<noteq> None \<longrightarrow>
            persistModificationsOfCurrentPerspective current s =
              s\<lparr>trace := trace s @ [Warn ''No perspective storage while saving perspective; this is probably a bug.'']\<rparr>)
       \<and> revertModificationsOfCurrentPerspective isModified s =
           s\<lparr>trace := trace s @ [Warn ''No perspective storage while reverting perspective by ID; this is probably a bug.'']\<rparr>
       \<and> createConfirmed perspective True s =
           s\<lparr>trace := trace s @ [Warn ''No perspective storage while creating new perspective; this is probably a bug.'']\<rparr>
       \<and> createConfirmed perspective False s = s"
  using assms
  by (auto simp: loadPerspectiveById_def updateCurrentPerspectiveWith_def
      persistModificationsOfCurrentPerspective_def updateCurrentPerspective_def
      revertModificationsOfCurrentPerspective_def createConfirmed_def emit_def)

lemma exampleUnplugged_facts:
  "storage (props exampleUnplugged) = None"
  "workbench (props exampleUnplugged) = Some 0"
  "pending exampleUnplugged = [AwaitCreateConfirm]"
  "trace exampleUnplugged =
     [StorageSubscribe 0, WorkbenchOn 0, StorageMap 0, EnvCreating 0 exampleDraft, StorageUnsubscribe 0]"
  by code_simp+

theorem absent_storage_is_diagnosed_witness:
  "storage (props exampleUnplugged) = None \<and> workbench (props exampleUnplugged) \<noteq> None \<and>
   trace (loadPerspectiveById ''A'' exampleUnplugged) =
     trace exampleUnplugged @ [Warn ''No perspective storage while loading perspective by ID; this is probably a bug.''] \<and>
   trace (persistModificationsOfCurrentPerspective exampleState exampleUnplugged) =
     trace exampleUnplugged @ [Warn ''No perspective storage while saving perspective; this is probably a bug.''] \<and>
   trace (revertModificationsOfCurrentPerspective True exampleUnplugged) =
     trace exampleUnplugged @ [Warn ''No perspective storage while reverting perspective by ID; this is probably a bug.''] \<and>
   trace (createConfirmed examplePerspective True exampleUnplugged) =
     trace exampleUnplugged @ [Warn ''No perspective storage while creating new perspective; this is probably a bug.''] \<and>
   createConfirmed examplePerspective False exampleUnplugged = exampleUnplugged"
  using absent_storage_is_diagnosed [of exampleUnplugged "''A''" exampleState True exampleState True examplePerspective]
  by (simp add: exampleUnplugged_facts)

text \<open>
  The claim as stated fails twice. The storage is taken away while the environment is
  asked about a draft, and the draft is rejected: the creation ends without a diagnostic.
  The workbench is taken away while a perspective is being loaded: the continuation logs
  its diagnostic and then asks the missing workbench for its state, which throws.
\<close>

theorem absent_collaborator_counterexample:
  "storage (props exampleUnplugged) = None \<and>
   trace (step exampleUnplugged (Resolve 0 (Drafted examplePerspective False))) = trace exampleUnplugged \<and>
   workbench (props (run exampleListed [ClickPerspective ''A'' False, NewProps (exampleProps\<lparr>workbench := None\<rparr>)])) = None \<and>
   trace (run exampleListed
            [ClickPerspective ''A'' False, NewProps (exampleProps\<lparr>workbench := None\<rparr>),
             Resolve 0 (Loaded examplePerspective False exampleState)]) =
     [StorageSubscribe 0, WorkbenchOn 0, StorageMap 0, StorageLoad 0 ''A'', WorkbenchOff 0,
      Warn ''Workbench is gone while the perspective was being loaded; this is probably a bug.'',
      Throws ''TypeError'']"
  by code_simp

lemma restoreState_static [simp]:
  "props (restoreState w st sync c s) = props s"
  "storageField (restoreState w st sync c s) = storageField s"
  "workbenchField (restoreState w st sync c s) = workbenchField s"
  "phase (restoreState w st sync c s) = phase s"
  by (simp_all add: restoreState_def onWorkbenchChanged_def updateCurrentPerspectiveWith_def Let_def
      split: option.splits)

lemma resume_static:
  "resume k a s = Some s' \<Longrightarrow>
   props s' = props s \<and> storageField s' = storageField s \<and>
   workbenchField s' = workbenchField s \<and> phase s' = phase s"
  by (cases k; cases a)
     (auto simp: enumerateResolved_def enumerateRejected_def loadPerspectiveByIdResumed_def
        revertConfirmed_def revertReverted_def loadPerspectiveById_def createConfirmed_def
        createSaved_def requestSelectedPerspectiveIdChange_def updateResumed_def Let_def
        split: option.splits if_splits)

lemma handlers_static:
  "props (onPerspectiveButtonClicked i m s) = props s \<and>
   storageField (onPerspectiveButtonClicked i m s) = storageField s \<and>
   workbenchField (onPerspectiveButtonClicked i m s) = workbenchField s \<and>
   phase (onPerspectiveButtonClicked i m s) = phase s"
  "props (createNewPerspective c s) = props s \<and>
   storageField (createNewPerspective c s) = storageField s \<and>
   workbenchField (createNewPerspective c s) = workbenchField s \<and>
   phase (createNewPerspective c s) = phase s"
  "props (persistModificationsOfCurrentPerspective c s) = props s \<and>
   storageField (persistModificationsOfCurrentPerspective c s) = storageField s \<and>
   workbenchField (persistModificationsOfCurrentPerspective c s) = workbenchField s \<and>
   phase (persistModificationsOfCurrentPerspective c s) = phase s"
  "props (forceReload s) = props s \<and>
   storageField (forceReload s) = storageField s \<and>
   workbenchField (forceReload s) = workbenchField s \<and>
   phase (forceReload s) = phase s"
  "props (onWorkbenchChanged c s) = props s \<and>
   storageField (onWorkbenchChanged c s) = storageField s \<and>
   workbenchField (onWorkbenchChanged c s) = workbenchField s \<and>
   phase (onWorkbenchChanged c s) = phase s"
  "props (onStorageChanged s) = props s \<and>
   storageField (onStorageChanged s) = storageField s \<and>
   workbenchField (onStorageChanged s) = workbenchField s \<and>
   phase (onStorageChanged s) = phase s"
  by (simp_all add: onPerspectiveButtonClicked_def revertModificationsOfCurrentPerspective_def
      loadPerspectiveById_def createNewPerspective_def persistModificationsOfCurrentPerspective_def
      updateCurrentPerspective_def updateCurrentPerspectiveWith_def forceReload_def
      onWorkbenchChanged_def onStorageChanged_def Let_def split: option.splits)

lemma settle_wired: "wired s \<Longrightarrow> wired (settle s)"
proof (induction s rule: settle.induct)
  case (1 s)
  show ?case
  proof (cases "updates s")
    case None
    then show ?thesis using 1 by (simp add: settle_None)
  next
    case (Some a)
    have "wired (componentDidUpdate (s\<lparr>state := getDerivedStateFromProps (props s) a, updates := None\<rparr>))"
      by (simp add: wired_def)
    then show ?thesis using 1(1)[OF Some] Some by (simp add: settle_Some)
  qed
qed

lemma wired_didUpdate [simp]: "wired (componentDidUpdate s)" "wired (componentDidMount s)"
  by (simp_all add: wired_def componentDidMount_def)

lemma wired_cong:
  "props s' = props s \<and> storageField s' = storageField s \<and>
   workbenchField s' = workbenchField s \<and> phase s' = phase s \<Longrightarrow> wired s \<Longrightarrow> wired s'"
  by (simp add: wired_def)

lemma reachable_wired: "reachable s \<Longrightarrow> phase s = Mounted \<Longrightarrow> wired s"
proof (induction rule: reachable.induct)
  case (reachable_init p)
  then show ?case by (simp add: constructor_def)
next
  case (reachable_step s e)
  show ?case
  proof (cases e)
    case DidMount
    then show ?thesis using reachable_step
      by (auto intro!: settle_wired split: if_splits)
  next
    case (NewProps p)
    then show ?thesis using reachable_step
      by (auto intro!: settle_wired split: if_splits)
  next
    case WillUnmount
    then show ?thesis using reachable_step by (auto split: if_splits)
  next
    case (ClickPerspective i m)
    then show ?thesis using reachable_step handlers_static(1)[of i m s]
      by (auto intro!: settle_wired elim: wired_cong[rotated] split: if_splits)
  next
    case (ClickNew c)
    then show ?thesis using reachable_step handlers_static(2)[of c s]
      by (auto intro!: settle_wired elim: wired_cong[rotated] split: if_splits)
  next
    case (ClickSave c)
    then show ?thesis using reachable_step handlers_static(3)[of c s]
      by (auto intro!: settle_wired elim: wired_cong[rotated] split: if_splits)
  next
    case ClickReload
    then show ?thesis using reachable_step handlers_static(4)[of s]
      by (auto intro!: settle_wired elim: wired_cong[rotated] split: if_splits)
  next
    case (StateChanged c)
    then show ?thesis using reachable_step handlers_static(5)[of c s]
      by (auto intro!: settle_wired elim: wired_cong[rotated] split: if_splits)
  next
    case StorageChanged
    then show ?thesis using reachable_step handlers_static(6)[of s]
      by (auto intro!: settle_wired elim: wired_cong[rotated] split: if_splits)
  next
    case (Resolve i a)
    show ?thesis
    proof (cases "i < length (pending s)")
      case False
      then show ?thesis using reachable_step Resolve by simp
    next
      case True
      let ?s0 = "s\<lparr>pending := take i (pending s) @ drop (Suc i) (pending s)\<rparr>"
      show ?thesis
      proof (cases "resume (pending s ! i) a ?s0")
        case None
        then show ?thesis using reachable_step Resolve True by simp
      next
        case (Some s')
        from resume_static[OF Some] have st: "props s' = props s \<and> storageField s' = storageField s \<and>
           workbenchField s' = workbenchField s \<and> phase s' = phase s" by simp
        have "phase s = Mounted" using reachable_step(3) Resolve True Some st by simp
        then have "wired s" using reachable_step by simp
        then have "wired s'" using st by (simp add: wired_def)
        then show ?thesis using Resolve True Some by (simp add: settle_wired)
      qed
    qed
  qed
qed


lemma nextState_basic [simp]:
  "nextState (emit e s) = nextState s"
  "nextState (suspend k s) = nextState s"
  "nextState (setState upd s) = (if phase s = Mounted then upd (nextState s) else nextState s)"
  by (simp_all add: nextState_def setState_def split: option.splits)

lemma nextState_fields [simp]:
  "nextState (s\<lparr>storageField := v\<rparr>) = nextState s"
  "nextState (s\<lparr>workbenchField := w\<rparr>) = nextState s"
  "nextState (s\<lparr>nextPromise := n\<rparr>) = nextState s"
  "nextState (s\<lparr>lastState := l\<rparr>) = nextState s"
  "nextState (s\<lparr>ignoreStateChangeCounter := c\<rparr>) = nextState s"
  "nextState (s\<lparr>pending := ps\<rparr>) = nextState s"
  by (simp_all add: nextState_def split: option.splits)

lemma nextState_settled: "updates s = None \<Longrightarrow> nextState s = state s"
  by (simp add: nextState_def)

lemma gdsfp_fields [simp]:
  "counter (getDerivedStateFromProps p st) = counter st"
  "error (getDerivedStateFromProps p st) = error st"
  "perspectives (getDerivedStateFromProps p st) = perspectives st"
  "promise (getDerivedStateFromProps p st) = promise st"
  by (simp_all add: getDerivedStateFromProps_def split: option.splits)

lemma gdsfp_uncontrolled [simp]:
  "selectedPerspectiveIdProp p = None \<Longrightarrow> getDerivedStateFromProps p st = st"
  by (simp add: getDerivedStateFromProps_def)

lemma setWorkbench_same [simp]: "workbenchField s = v \<Longrightarrow> setWorkbench v s = s"
  by (simp add: setWorkbench_def)

lemma startLoading_loaded [simp]:
  "perspectives (state s) \<noteq> None \<Longrightarrow> startLoadingIfNeeded s = s"
  "promise (state s) \<noteq> None \<Longrightarrow> startLoadingIfNeeded s = s"
  by (auto simp: startLoadingIfNeeded_def split: option.splits)

lemma selected_next_forceReload [simp]:
  "selectedPerspectiveId (nextState (forceReload s)) = selectedPerspectiveId (nextState s)"
  by (simp add: forceReload_def Let_def)

lemma selected_next_setStorage [simp]:
  "selectedPerspectiveId (nextState (setStorage v s)) = selectedPerspectiveId (nextState s)"
  by (simp add: setStorage_def Let_def split: option.splits)

lemma selected_next_setWorkbench [simp]:
  "selectedPerspectiveId (nextState (setWorkbench v s)) = selectedPerspectiveId (nextState s)"
  by (simp add: setWorkbench_def Let_def split: option.splits)

lemma selected_next_startLoading [simp]:
  "selectedPerspectiveId (nextState (startLoadingIfNeeded s)) = selectedPerspectiveId (nextState s)"
  by (simp add: startLoadingIfNeeded_def Let_def split: option.splits)

lemma selected_next_didUpdate [simp]:
  "selectedPerspectiveId (nextState (componentDidUpdate s)) = selectedPerspectiveId (nextState s)"
  by (simp add: componentDidUpdate_def)

lemma settle_uncontrolled_selected:
  "selectedPerspectiveIdProp (props s) = None \<Longrightarrow>
   selectedPerspectiveId (state (settle s)) = selectedPerspectiveId (nextState s)"
proof (induction s rule: settle.induct)
  case (1 s)
  show ?case
  proof (cases "updates s")
    case None
    then show ?thesis by (simp add: settle_None nextState_def)
  next
    case (Some a)
    let ?s1 = "s\<lparr>state := getDerivedStateFromProps (props s) a, updates := None\<rparr>"
    have "selectedPerspectiveId (state (settle (componentDidUpdate ?s1))) =
          selectedPerspectiveId (nextState (componentDidUpdate ?s1))"
      using 1(1)[OF Some] 1(2) by simp
    also have "\<dots> = selectedPerspectiveId (nextState ?s1)" by simp
    also have "\<dots> = selectedPerspectiveId a" using 1(2) by (simp add: nextState_def)
    finally show ?thesis using Some by (simp add: settle_Some nextState_def)
  qed
qed

text \<open>
  C3, as amended. A storage change notification that arrives while a perspective list is
  loaded makes the bar render again and nothing more: the dummy counter flips, the list,
  the error flag and the in-flight marker stay as they are, no enumeration is started and
  nothing is suspended.
\<close>

theorem storage_change_only_rerenders:
  assumes r: "reachable s" and m: "phase s = Mounted" and sub: "storageField s \<noteq> None"
    and l: "perspectives (state s) \<noteq> None"
  shows "step s StorageChanged =
           s\<lparr>state := getDerivedStateFromProps (props s)
                        ((state s)\<lparr>counter := 1 - counter (state s)\<rparr>)\<rparr>
       \<and> trace (step s StorageChanged) = trace s
       \<and> pending (step s StorageChanged) = pending s
       \<and> perspectives (state (step s StorageChanged)) = perspectives (state s)
       \<and> promise (state (step s StorageChanged)) = promise (state s)
       \<and> error (state (step s StorageChanged)) = error (state s)
       \<and> counter (state (step s StorageChanged)) = 1 - counter (state s)"
proof -
  have u: "updates s = None" using r by (rule reachable_updates)
  have w: "wired s" using r m by (rule reachable_wired)
  let ?st = "getDerivedStateFromProps (props s) ((state s)\<lparr>counter := 1 - counter (state s)\<rparr>)"
  let ?s1 = "s\<lparr>state := ?st, updates := None\<rparr>"
  have a: "onStorageChanged s = s\<lparr>updates := Some ((state s)\<lparr>counter := 1 - counter (state s)\<rparr>)\<rparr>"
    using u m by (simp add: onStorageChanged_def setState_def Let_def)
  have b: "componentDidUpdate ?s1 = ?s1"
    using w l by (simp add: componentDidUpdate_def wired_def)
  have "settle (onStorageChanged s) = settle (componentDidUpdate ?s1)"
    by (subst settle_Some [where a = "(state s)\<lparr>counter := 1 - counter (state s)\<rparr>"])
       (simp_all add: a)
  also have "\<dots> = ?s1" by (simp add: b settle_None)
  also have "\<dots> = s\<lparr>state := ?st\<rparr>" using u by simp
  finally have "step s StorageChanged = s\<lparr>state := ?st\<rparr>" using sub by simp
  then show ?thesis by (simp del: step.simps)
qed

theorem storage_change_only_rerenders_witness:
  "reachable exampleListed \<and> phase exampleListed = Mounted \<and> storageField exampleListed \<noteq> None \<and>
   perspectives (state exampleListed) \<noteq> None \<and>
   trace (step exampleListed StorageChanged) = trace exampleListed \<and>
   pending (step exampleListed StorageChanged) = pending exampleListed \<and>
   perspectives (state (step exampleListed StorageChanged)) = perspectives (state exampleListed) \<and>
   promise (state (step exampleListed StorageChanged)) = promise (state exampleListed) \<and>
   counter (state (step exampleListed StorageChanged)) = 1 - counter (state exampleListed)"
proof -
  have f: "phase exampleListed = Mounted" "storageField exampleListed \<noteq> None"
    "perspectives (state exampleListed) \<noteq> None"
    by code_simp+
  from storage_change_only_rerenders [OF reachable_exampleListed f]
  show ?thesis using f reachable_exampleListed by (simp del: step.simps)
qed

text \<open>
  The claim as stated fails on the scenario's bar once its list is loaded: after the
  notification the only enumeration in the trace is still the one made at mount.
\<close>

theorem storage_change_reload_counterexample:
  "storageField exampleListed = Some 0 \<and>
   perspectives (state exampleListed) = Some [(''A'', examplePerspective)] \<and>
   trace exampleListed = [StorageSubscribe 0, WorkbenchOn 0, StorageMap 0] \<and>
   trace (step exampleListed StorageChanged) = [StorageSubscribe 0, WorkbenchOn 0, StorageMap 0] \<and>
   pending (step exampleListed StorageChanged) = [] \<and>
   promise (state (step exampleListed StorageChanged)) = None \<and>
   perspectives (state (step exampleListed StorageChanged)) = Some [(''A'', examplePerspective)]"
  by code_simp

lemma exampleRestoring_more:
  "phase exampleRestoring = Mounted"
  "hasButton ''A'' exampleRestoring"
  "selectedPerspectiveId (state exampleRestoring) = Some ''A''"
  "storage (props exampleRestoring) = Some 0"
  "pending exampleRestoring = []"
  by code_simp+

theorem click_on_selected_only_reverts_witness:
  "reachable exampleRestoring \<and> phase exampleRestoring = Mounted \<and> hasButton ''A'' exampleRestoring \<and>
   selectedPerspectiveId (state exampleRestoring) = Some ''A'' \<and>
   storage (props exampleRestoring) = Some 0 \<and> workbench (props exampleRestoring) = Some 0 \<and>
   step exampleRestoring (ClickPerspective ''A'' False) = exampleRestoring \<and>
   trace (step exampleRestoring (ClickPerspective ''A'' True)) =
     trace exampleRestoring @ [EnvConfirm 0 revertMessage] \<and>
   trace (run exampleRestoring [ClickPerspective ''A'' True, Resolve 0 (Confirmed False)]) =
     trace exampleRestoring @ [EnvConfirm 0 revertMessage] \<and>
   trace (run exampleRestoring [ClickPerspective ''A'' True, Resolve 0 (Confirmed True)]) =
     trace exampleRestoring @ [EnvConfirm 0 revertMessage, StorageRevert 0 ''A''] \<and>
   trace (run exampleRestoring
            [ClickPerspective ''A'' True, Resolve 0 (Confirmed True), Resolve 0 Completed]) =
     trace exampleRestoring @ [EnvConfirm 0 revertMessage, StorageRevert 0 ''A'', StorageLoad 0 ''A'']"
proof -
  note t = click_on_selected_only_reverts [OF reachable_exampleRestoring exampleRestoring_more(1,2,3,4)
      exampleRestoring_facts(3)]
  show ?thesis
    using t reachable_exampleRestoring
    by (simp add: exampleRestoring_more exampleRestoring_facts(3) del: step.simps)
qed

text \<open>
  C7, as amended. While the bar is mounted: a draft that the environment rejects changes
  nothing (the suspended creation is simply gone); a confirmed draft is handed to
  \<open>storage.save\<close>; when the save returns an id and the selection is not
  controlled through the props, the selected id becomes that id and the baseline becomes
  the draft's state; when the selection is controlled through the props, the baseline
  still becomes the draft's state, but the selection is left to the parent, which is told
  through \<open>onChange\<close> if it gave one.
\<close>

theorem create_adopts_id_when_uncontrolled:
  assumes r: "reachable s" and m: "phase s = Mounted" and i: "i < length (pending s)"
  shows "(pending s ! i = AwaitCreateConfirm \<longrightarrow>
            step s (Resolve i (Drafted p False)) =
              s\<lparr>pending := take i (pending s) @ drop (Suc i) (pending s)\<rparr>)
       \<and> (pending s ! i = AwaitCreateConfirm \<and> storage (props s) = Some sto \<longrightarrow>
            step s (Resolve i (Drafted p True)) =
              suspend (AwaitSave p)
                (emit (StorageSave sto p)
                   (s\<lparr>pending := take i (pending s) @ drop (Suc i) (pending s)\<rparr>)))
       \<and> (pending s ! i = AwaitSave p \<and> selectedPerspectiveIdProp (props s) = None \<longrightarrow>
            selectedPerspectiveId (state (step s (Resolve i (Saved ident)))) = Some ident \<and>
            lastState (step s (Resolve i (Saved ident))) = Some (pstate p))
       \<and> (pending s ! i = AwaitSave p \<and> selectedPerspectiveIdProp (props s) \<noteq> None \<longrightarrow>
            state (step s (Resolve i (Saved ident))) = state s \<and>
            lastState (step s (Resolve i (Saved ident))) = Some (pstate p) \<and>
            trace (step s (Resolve i (Saved ident))) =
              trace s @ (case onChange (props s) of Some f \<Rightarrow> [OnChangeCalled ident] | None \<Rightarrow> []))"
proof -
  have u: "updates s = None" using r by (rule reachable_updates)
  let ?s0 = "s\<lparr>pending := take i (pending s) @ drop (Suc i) (pending s)\<rparr>"
  have a: "step s (Resolve i (Drafted p False)) = ?s0" if "pending s ! i = AwaitCreateConfirm"
    using that i u by (simp add: createConfirmed_def settle_None)
  have b: "step s (Resolve i (Drafted p True)) = suspend (AwaitSave p) (emit (StorageSave sto p) ?s0)"
    if "pending s ! i = AwaitCreateConfirm" "storage (props s) = Some sto"
    using that i u by (simp add: createConfirmed_def settle_None)
  have c: "selectedPerspectiveId (state (step s (Resolve i (Saved ident)))) = Some ident \<and>
           lastState (step s (Resolve i (Saved ident))) = Some (pstate p)"
    if "pending s ! i = AwaitSave p" "selectedPerspectiveIdProp (props s) = None"
  proof -
    let ?s1 = "createSaved p ident ?s0"
    have st: "step s (Resolve i (Saved ident)) = settle ?s1" using that i by simp
    have pr: "selectedPerspectiveIdProp (props ?s1) = None"
      using that by (simp add: createSaved_def requestSelectedPerspectiveIdChange_def Let_def)
    have nx: "selectedPerspectiveId (nextState ?s1) = Some ident"
      using that m by (simp add: createSaved_def requestSelectedPerspectiveIdChange_def Let_def)
    have ls: "lastState ?s1 = Some (pstate p)"
      by (simp add: createSaved_def Let_def)
    show ?thesis
      unfolding st using settle_uncontrolled_selected [OF pr] nx ls by simp
  qed
  have d: "state (step s (Resolve i (Saved ident))) = state s \<and>
           lastState (step s (Resolve i (Saved ident))) = Some (pstate p) \<and>
           trace (step s (Resolve i (Saved ident))) =
             trace s @ (case onChange (props s) of Some f \<Rightarrow> [OnChangeCalled ident] | None \<Rightarrow> [])"
    if "pending s ! i = AwaitSave p" "selectedPerspectiveIdProp (props s) \<noteq> None"
    using that i u
    by (auto simp: createSaved_def requestSelectedPerspectiveIdChange_def Let_def settle_None
        split: option.splits)
  from a b c d show ?thesis by blast
qed


lemma reachable_exampleCreating: "reachable exampleCreating"
  unfolding exampleCreating_def by (intro reachable_run reachable_exampleListed)

lemma reachable_exampleSaving: "reachable exampleSaving"
  unfolding exampleSaving_def by (intro reachable_run reachable_exampleCreating)

lemma reachable_exampleControlledSaving: "reachable exampleControlledSaving"
  unfolding exampleControlledSaving_def by (intro reachable_run reachable_init)

lemma exampleCreating_facts:
  "phase exampleCreating = Mounted"
  "pending exampleCreating = [AwaitCreateConfirm]"
  "storage (props exampleCreating) = Some 0"
  "selectedPerspectiveId (state exampleCreating) = None"
  by code_simp+

lemma exampleSaving_facts:
  "phase exampleSaving = Mounted"
  "pending exampleSaving = [AwaitSave examplePerspective]"
  "selectedPerspectiveIdProp (props exampleSaving) = None"
  "selectedPerspectiveId (state exampleSaving) = None"
  by code_simp+

lemma exampleControlledSaving_facts:
  "phase exampleControlledSaving = Mounted"
  "pending exampleControlledSaving = [AwaitSave examplePerspective]"
  "selectedPerspectiveIdProp (props exampleControlledSaving) = Some (Some ''A'')"
  "onChange (props exampleControlledSaving) = None"
  by code_simp+

theorem create_adopts_id_when_uncontrolled_witness:
  "reachable exampleCreating \<and> phase exampleCreating = Mounted \<and>
   0 < length (pending exampleCreating) \<and> pending exampleCreating ! 0 = AwaitCreateConfirm \<and>
   storage (props exampleCreating) = Some 0 \<and>
   step exampleCreating (Resolve 0 (Drafted examplePerspective False)) =
     exampleCreating\<lparr>pending := []\<rparr> \<and>
   trace (step exampleCreating (Resolve 0 (Drafted examplePerspective True))) =
     trace exampleCreating @ [StorageSave 0 examplePerspective] \<and>
   reachable exampleSaving \<and> phase exampleSaving = Mounted \<and>
   pending exampleSaving ! 0 = AwaitSave examplePerspective \<and>
   selectedPerspectiveIdProp (props exampleSaving) = None \<and>
   selectedPerspectiveId (state (step exampleSaving (Resolve 0 (Saved ''B'')))) = Some ''B'' \<and>
   lastState (step exampleSaving (Resolve 0 (Saved ''B''))) = Some (pstate examplePerspective) \<and>
   reachable exampleControlledSaving \<and> phase exampleControlledSaving = Mounted \<and>
   pending exampleControlledSaving ! 0 = AwaitSave examplePerspective \<and>
   selectedPerspectiveIdProp (props exampleControlledSaving) \<noteq> None \<and>
   state (step exampleControlledSaving (Resolve 0 (Saved ''B''))) = state exampleControlledSaving \<and>
   lastState (step exampleControlledSaving (Resolve 0 (Saved ''B''))) = Some (pstate examplePerspective)"
proof -
  have l1: "0 < length (pending exampleCreating)" by (simp add: exampleCreating_facts)
  have l2: "0 < length (pending exampleSaving)" by (simp add: exampleSaving_facts)
  have l3: "0 < length (pending exampleControlledSaving)" by (simp add: exampleControlledSaving_facts)
  note t1 = create_adopts_id_when_uncontrolled [OF reachable_exampleCreating exampleCreating_facts(1) l1,
      where p = examplePerspective and sto = 0 and ident = "''B''"]
  note t2 = create_adopts_id_when_uncontrolled [OF reachable_exampleSaving exampleSaving_facts(1) l2,
      where p = examplePerspective and sto = 0 and ident = "''B''"]
  note t3 = create_adopts_id_when_uncontrolled [OF reachable_exampleControlledSaving
      exampleControlledSaving_facts(1) l3, where p = examplePerspective and sto = 0 and ident = "''B''"]
  show ?thesis
    using t1 t2 t3 reachable_exampleCreating reachable_exampleSaving reachable_exampleControlledSaving
    by (simp add: exampleCreating_facts exampleSaving_facts exampleControlledSaving_facts
        del: step.simps)
qed

text \<open>
  The claim as stated fails in controlled mode: the parent says \<open>A\<close> is selected,
  a creation succeeds with the new id \<open>B\<close>, and the selected id is still
  \<open>A\<close>.
\<close>

theorem create_in_controlled_mode_counterexample:
  "pending exampleControlledSaving = [AwaitSave examplePerspective] \<and>
   trace exampleControlledSaving =
     [StorageSubscribe 0, WorkbenchOn 0, StorageMap 0, EnvCreating 0 exampleDraft,
      StorageSave 0 examplePerspective] \<and>
   selectedPerspectiveId (state (step exampleControlledSaving (Resolve 0 (Saved ''B'')))) = Some ''A'' \<and>
   selectedPerspectiveId (state (step exampleControlledSaving (Resolve 0 (Saved ''B'')))) \<noteq> Some ''B'' \<and>
   lastState (step exampleControlledSaving (Resolve 0 (Saved ''B''))) = Some (pstate examplePerspective)"
  by code_simp

lemma enumerations_append [simp]: "enumerations (xs @ ys) = enumerations xs @ enumerations ys"
  by (simp add: enumerations_def map_filter_def)

lemma enumerations_simps [simp]:
  "enumerations [] = []"
  "enumerations (e # tr) = (case enumerated e of Some sto \<Rightarrow> sto # enumerations tr | None \<Rightarrow> enumerations tr)"
  by (simp_all add: enumerations_def map_filter_def split: option.splits)

lemma gdsfp_idem_promise:
  "getDerivedStateFromProps p ((getDerivedStateFromProps p a)\<lparr>promise := x\<rparr>) =
   (getDerivedStateFromProps p a)\<lparr>promise := x\<rparr>"
  by (simp add: getDerivedStateFromProps_def split: option.splits)

lemma didUpdate_idle:
  "wired s \<Longrightarrow> \<not> needsLoading (props s) (state s) \<Longrightarrow> componentDidUpdate s = s"
  by (auto simp: componentDidUpdate_def wired_def needsLoading_def startLoadingIfNeeded_def
      setState_def split: option.splits)

lemma settle_wired_idle:
  assumes "wired s" "updates s = Some a" "\<not> needsLoading (props s) a"
  shows "settle s = s\<lparr>state := getDerivedStateFromProps (props s) a, updates := None\<rparr>"
proof -
  let ?s1 = "s\<lparr>state := getDerivedStateFromProps (props s) a, updates := None\<rparr>"
  have w: "wired ?s1" using assms(1) by (simp add: wired_def)
  have "componentDidUpdate ?s1 = ?s1"
    using assms(3) by (intro didUpdate_idle w) simp
  then show ?thesis using assms(2) by (simp add: settle_Some settle_None)
qed

lemma settle_wired_loading:
  assumes "wired s" "updates s = Some a" "needsLoading (props s) a" "phase s = Mounted"
    "storage (props s) = Some b"
  shows "settle s =
     s\<lparr>state := (getDerivedStateFromProps (props s) a)\<lparr>promise := Some (nextPromise s)\<rparr>,
       updates := None,
       pending := pending s @ [AwaitEnumerate (nextPromise s)],
       nextPromise := Suc (nextPromise s),
       trace := trace s @ [StorageMap b]\<rparr>"
proof -
  let ?g = "getDerivedStateFromProps (props s) a"
  let ?s1 = "s\<lparr>state := ?g, updates := None\<rparr>"
  let ?s2 = "s\<lparr>state := ?g,
       updates := Some (?g\<lparr>promise := Some (nextPromise s)\<rparr>),
       pending := pending s @ [AwaitEnumerate (nextPromise s)],
       nextPromise := Suc (nextPromise s),
       trace := trace s @ [StorageMap b]\<rparr>"
  let ?s3 = "s\<lparr>state := ?g\<lparr>promise := Some (nextPromise s)\<rparr>,
       updates := None,
       pending := pending s @ [AwaitEnumerate (nextPromise s)],
       nextPromise := Suc (nextPromise s),
       trace := trace s @ [StorageMap b]\<rparr>"
  have d1: "componentDidUpdate ?s1 = ?s2"
    using assms
    by (simp add: componentDidUpdate_def wired_def needsLoading_def startLoadingIfNeeded_def
        setState_def emit_def suspend_def Let_def)
  have w2: "wired ?s2" using assms(1) by (simp add: wired_def)
  have "settle ?s2 = ?s3"
    by (subst settle_wired_idle [OF w2, where a = "?g\<lparr>promise := Some (nextPromise s)\<rparr>"])
       (simp_all add: needsLoading_def gdsfp_idem_promise)
  then show ?thesis using assms(2) d1 by (simp add: settle_Some)
qed


lemma setStorage_changed:
  assumes "storageField s \<noteq> v" "updates s = None" "phase s = Mounted"
  shows "updates (setStorage v s) = Some (reloaded (state s))"
    and "enumerations (trace (setStorage v s)) = enumerations (trace s)"
  using assms
  by (auto simp: setStorage_def forceReload_def setState_def reloaded_def emit_def Let_def
      split: option.splits)

lemma setWorkbench_enumerations [simp]:
  "enumerations (trace (setWorkbench v s)) = enumerations (trace s)"
  by (auto simp: setWorkbench_def emit_def Let_def split: option.splits)

lemma startLoading_fields:
  assumes "phase s = Mounted" "storage (props s) = Some b"
  shows "updates (startLoadingIfNeeded s) =
           (if needsLoading (props s) (state s)
            then Some ((nextState s)\<lparr>promise := Some (nextPromise s)\<rparr>) else updates s)"
    and "pending (startLoadingIfNeeded s) =
           pending s @ (if needsLoading (props s) (state s) then [AwaitEnumerate (nextPromise s)] else [])"
    and "nextPromise (startLoadingIfNeeded s) =
           (if needsLoading (props s) (state s) then Suc (nextPromise s) else nextPromise s)"
    and "enumerations (trace (startLoadingIfNeeded s)) =
           enumerations (trace s) @ (if needsLoading (props s) (state s) then [b] else [])"
  using assms
  by (auto simp: startLoadingIfNeeded_def needsLoading_def setState_def nextState_def Let_def
      split: option.splits)

lemma didUpdate_swapped:
  assumes "storageField s \<noteq> Some b" "storage (props s) = Some b" "updates s = None"
    "phase s = Mounted"
  shows "updates (componentDidUpdate s) =
           Some (if needsLoading (props s) (state s)
                 then (reloaded (state s))\<lparr>promise := Some (nextPromise s)\<rparr>
                 else reloaded (state s))"
    and "pending (componentDidUpdate s) =
           pending s @ (if needsLoading (props s) (state s) then [AwaitEnumerate (nextPromise s)] else [])"
    and "nextPromise (componentDidUpdate s) =
           (if needsLoading (props s) (state s) then Suc (nextPromise s) else nextPromise s)"
    and "enumerations (trace (componentDidUpdate s)) =
           enumerations (trace s) @ (if needsLoading (props s) (state s) then [b] else [])"
proof -
  let ?a = "setStorage (Some b) s"
  let ?b = "setWorkbench (workbench (props s)) ?a"
  have ua: "updates ?b = Some (reloaded (state s))"
    using setStorage_changed(1)[OF assms(1,3,4)] by simp
  have ea: "enumerations (trace ?b) = enumerations (trace s)"
    using setStorage_changed(2)[OF assms(1,3,4)] by simp
  have pb: "phase ?b = Mounted" "storage (props ?b) = Some b" "state ?b = state s"
    "props ?b = props s" "pending ?b = pending s" "nextPromise ?b = nextPromise s"
    using assms by simp_all
  have nb: "nextState ?b = reloaded (state s)" using ua by (simp add: nextState_def)
  show "updates (componentDidUpdate s) =
           Some (if needsLoading (props s) (state s)
                 then (reloaded (state s))\<lparr>promise := Some (nextPromise s)\<rparr>
                 else reloaded (state s))"
    unfolding componentDidUpdate_def assms(2)
    using startLoading_fields(1)[OF pb(1,2)] ua nb pb by simp
  show "pending (componentDidUpdate s) =
           pending s @ (if needsLoading (props s) (state s) then [AwaitEnumerate (nextPromise s)] else [])"
    unfolding componentDidUpdate_def assms(2)
    using startLoading_fields(2)[OF pb(1,2)] pb by simp
  show "nextPromise (componentDidUpdate s) =
           (if needsLoading (props s) (state s) then Suc (nextPromise s) else nextPromise s)"
    unfolding componentDidUpdate_def assms(2)
    using startLoading_fields(3)[OF pb(1,2)] pb by simp
  show "enumerations (trace (componentDidUpdate s)) =
           enumerations (trace s) @ (if needsLoading (props s) (state s) then [b] else [])"
    unfolding componentDidUpdate_def assms(2)
    using startLoading_fields(4)[OF pb(1,2)] ea pb by simp
qed

lemma fresh_fields [simp]:
  "promiseFresh (s\<lparr>storageField := v\<rparr>) = promiseFresh s"
  "promiseFresh (s\<lparr>workbenchField := w\<rparr>) = promiseFresh s"
  "promiseFresh (s\<lparr>lastState := l\<rparr>) = promiseFresh s"
  "promiseFresh (s\<lparr>ignoreStateChangeCounter := c\<rparr>) = promiseFresh s"
  "promiseFresh (s\<lparr>pending := ps\<rparr>) = promiseFresh s"
  "promiseFresh (s\<lparr>props := p\<rparr>) = promiseFresh s"
  "promiseFresh (s\<lparr>phase := ph\<rparr>) = promiseFresh s"
  "promiseFresh (emit e s) = promiseFresh s"
  "promiseFresh (suspend k s) = promiseFresh s"
  by (simp_all add: promiseFresh_def nextState_def emit_def suspend_def split: option.splits)

lemma fresh_setState:
  "promiseFresh s \<Longrightarrow> promise (upd (nextState s)) = promise (nextState s) \<or> promise (upd (nextState s)) = None \<Longrightarrow>
   promiseFresh (setState upd s)"
  by (auto simp: promiseFresh_def split: option.splits)

lemma fresh_forceReload: "promiseFresh s \<Longrightarrow> promiseFresh (forceReload s)"
  by (simp add: forceReload_def Let_def fresh_setState)

lemma fresh_setStorage: "promiseFresh s \<Longrightarrow> promiseFresh (setStorage v s)"
  by (simp add: setStorage_def Let_def fresh_forceReload split: option.splits)

lemma fresh_setWorkbench: "promiseFresh s \<Longrightarrow> promiseFresh (setWorkbench v s)"
  by (simp add: setWorkbench_def Let_def split: option.splits)

lemma fresh_startLoading: "promiseFresh s \<Longrightarrow> promiseFresh (startLoadingIfNeeded s)"
  by (auto simp: startLoadingIfNeeded_def Let_def promiseFresh_def split: option.splits)

lemma fresh_didUpdate:
  "promiseFresh s \<Longrightarrow> promiseFresh (componentDidUpdate s)"
  "promiseFresh s \<Longrightarrow> promiseFresh (componentDidMount s)"
  by (simp_all add: componentDidUpdate_def componentDidMount_def fresh_startLoading
      fresh_setWorkbench fresh_setStorage)

lemma fresh_settle: "promiseFresh s \<Longrightarrow> promiseFresh (settle s)"
proof (induction s rule: settle.induct)
  case (1 s)
  show ?case
  proof (cases "updates s")
    case None
    then show ?thesis using 1(2) by (simp add: settle_None)
  next
    case (Some a)
    let ?s1 = "s\<lparr>state := getDerivedStateFromProps (props s) a, updates := None\<rparr>"
    have "promiseFresh ?s1" using 1(2) Some by (simp add: promiseFresh_def nextState_def split: option.splits)
    then have "promiseFresh (componentDidUpdate ?s1)" by (rule fresh_didUpdate)
    then show ?thesis using 1(1)[OF Some] Some by (simp add: settle_Some)
  qed
qed

lemma fresh_handlers:
  "promiseFresh s \<Longrightarrow> promiseFresh (onPerspectiveButtonClicked i m s)"
  "promiseFresh s \<Longrightarrow> promiseFresh (createNewPerspective c s)"
  "promiseFresh s \<Longrightarrow> promiseFresh (persistModificationsOfCurrentPerspective c s)"
  "promiseFresh s \<Longrightarrow> promiseFresh (onWorkbenchChanged c s)"
  "promiseFresh s \<Longrightarrow> promiseFresh (onStorageChanged s)"
  by (auto simp: onPerspectiveButtonClicked_def revertModificationsOfCurrentPerspective_def
      loadPerspectiveById_def createNewPerspective_def persistModificationsOfCurrentPerspective_def
      updateCurrentPerspective_def updateCurrentPerspectiveWith_def onWorkbenchChanged_def
      onStorageChanged_def Let_def fresh_setState split: option.splits)

lemma fresh_unmount:
  "promiseFresh s \<Longrightarrow> updates s = None \<Longrightarrow> promiseFresh ((componentWillUnmount s)\<lparr>updates := None\<rparr>)"
  by (simp add: promiseFresh_def nextState_def componentWillUnmount_def cancelLoading_def
      split: option.splits)

lemma fresh_resume:
  "resume k a s = Some s' \<Longrightarrow> promiseFresh s \<Longrightarrow> promiseFresh s'"
  by (cases k; cases a)
     (auto simp: enumerateResolved_def enumerateRejected_def loadPerspectiveByIdResumed_def
        restoreState_def fresh_handlers
        revertConfirmed_def revertReverted_def loadPerspectiveById_def createConfirmed_def
        createSaved_def requestSelectedPerspectiveIdChange_def updateResumed_def Let_def
        fresh_setState split: option.splits if_splits)

lemma fresh_step: "promiseFresh s \<Longrightarrow> updates s = None \<Longrightarrow> promiseFresh (step s e)"
proof (cases e)
  case (Resolve i a)
  assume "promiseFresh s"
  then show ?thesis using Resolve by (auto split: option.splits intro!: fresh_settle dest: fresh_resume)
next
  case (NewProps p)
  assume f: "promiseFresh s" and u: "updates s = None"
  have "promiseFresh (s\<lparr>props := p, state := getDerivedStateFromProps p (state s)\<rparr>)"
    using f u by (simp add: promiseFresh_def nextState_def split: option.splits)
  then show ?thesis using NewProps f by (auto intro!: fresh_settle fresh_didUpdate)
next
  case DidMount
  assume f: "promiseFresh s" and u: "updates s = None"
  have "promiseFresh (s\<lparr>phase := Mounted, state := getDerivedStateFromProps (props s) (state s)\<rparr>)"
    using f u by (simp add: promiseFresh_def nextState_def split: option.splits)
  then show ?thesis using DidMount f by (auto intro!: fresh_settle fresh_didUpdate)
next
  case WillUnmount
  assume f: "promiseFresh s" and u: "updates s = None"
  then show ?thesis using WillUnmount fresh_unmount[OF f u] by auto
qed (auto intro!: fresh_settle fresh_handlers fresh_forceReload)

lemma reachable_fresh: "reachable s \<Longrightarrow> promiseFresh s"
proof (induction rule: reachable.induct)
  case (reachable_init p)
  then show ?case by (simp add: promiseFresh_def nextState_def constructor_def)
next
  case (reachable_step s e)
  then show ?case by (intro fresh_step reachable_updates)
qed

lemma reachable_promise_below:
  "reachable s \<Longrightarrow> promise (state s) = Some q \<Longrightarrow> q < nextPromise s"
  using reachable_fresh[of s] reachable_updates[of s]
  by (simp add: promiseFresh_def nextState_def)

text \<open>
  What a change of storage achieves. When the props of a mounted bar bring a storage that
  is not the one the bar is subscribed to, then, once the bar has settled, the bar is
  subscribed to the new storage, the list is absent and the error flag is cleared whatever
  they were, the in-flight marker is a promise created for this reload and none of the
  earlier ones, and the trace has gained exactly one enumeration, of the new storage. The
  continuation of an enumeration that was in flight stays suspended.
\<close>

lemma storage_swap_reloads_once:
  assumes r: "reachable s" and m: "phase s = Mounted"
    and new: "storage p = Some b" and diff: "storageField s \<noteq> Some b"
  shows "storageField (step s (NewProps p)) = Some b
       \<and> perspectives (state (step s (NewProps p))) = None
       \<and> error (state (step s (NewProps p))) = False
       \<and> promise (state (step s (NewProps p))) = Some (nextPromise s)
       \<and> promise (state (step s (NewProps p))) \<noteq> promise (state s)
       \<and> pending (step s (NewProps p)) = pending s @ [AwaitEnumerate (nextPromise s)]
       \<and> nextPromise (step s (NewProps p)) = Suc (nextPromise s)
       \<and> enumerations (trace (step s (NewProps p))) = enumerations (trace s) @ [b]"
proof -
  have u: "updates s = None" using r by (rule reachable_updates)
  have nf: "promise (state s) \<noteq> Some (nextPromise s)"
    using reachable_promise_below [OF r] by auto
  let ?s0 = "s\<lparr>props := p, state := getDerivedStateFromProps p (state s)\<rparr>"
  let ?d = "componentDidUpdate ?s0"
  let ?n = "nextPromise s"
  let ?fr = "reloaded (state ?s0)"
  have st: "step s (NewProps p) = settle ?d" using m by simp
  have h: "storageField ?s0 \<noteq> Some b" "storage (props ?s0) = Some b" "updates ?s0 = None"
    "phase ?s0 = Mounted"
    using diff new u m by simp_all
  note d = didUpdate_swapped [OF h]
  have w: "wired ?d" by simp
  have pd: "props ?d = p" "phase ?d = Mounted" "storageField ?d = Some b"
    using new m by simp_all
  have fr: "perspectives ?fr = None" "error ?fr = False" "promise ?fr = None"
    by (simp_all add: reloaded_def)
  show ?thesis
  proof (cases "needsLoading p (state s)")
    case True
    then have nl: "needsLoading (props ?s0) (state ?s0)" by (simp add: needsLoading_def)
    have ud: "updates ?d = Some (?fr\<lparr>promise := Some ?n\<rparr>)" using d(1) nl by simp
    have "\<not> needsLoading (props ?d) (?fr\<lparr>promise := Some ?n\<rparr>)" by (simp add: needsLoading_def)
    from settle_wired_idle [OF w ud this]
    have "settle ?d = ?d\<lparr>state := getDerivedStateFromProps (props ?d) (?fr\<lparr>promise := Some ?n\<rparr>),
                         updates := None\<rparr>" .
    then show ?thesis
      unfolding st using d(2,3,4) nl pd fr nf by simp
  next
    case False
    then have nl: "\<not> needsLoading (props ?s0) (state ?s0)" by (simp add: needsLoading_def)
    have ud: "updates ?d = Some ?fr" using d(1) nl by simp
    have nd: "needsLoading (props ?d) ?fr" using new fr pd by (simp add: needsLoading_def)
    have sd: "storage (props ?d) = Some b" using new pd by simp
    from settle_wired_loading [OF w ud nd pd(2) sd]
    have "settle ?d =
       ?d\<lparr>state := (getDerivedStateFromProps (props ?d) ?fr)\<lparr>promise := Some (nextPromise ?d)\<rparr>,
          updates := None,
          pending := pending ?d @ [AwaitEnumerate (nextPromise ?d)],
          nextPromise := Suc (nextPromise ?d),
          trace := trace ?d @ [StorageMap b]\<rparr>" .
    then show ?thesis
      unfolding st using d(2,3,4) nl pd fr nf by simp
  qed
qed

lemma exampleListed_facts:
  "phase exampleListed = Mounted"
  "storageField exampleListed = Some 0"
  "nextPromise exampleListed = 1"
  "pending exampleListed = []"
  "perspectives (state exampleListed) = Some [(''A'', examplePerspective)]"
  "enumerations (trace exampleListed) = [0]"
  "promise (state exampleListed) = None"
  by code_simp+

lemma storage_swap_reloads_once_example:
  "reachable exampleListed \<and> phase exampleListed = Mounted \<and> storage exampleSwapProps = Some 1 \<and>
   storageField exampleListed \<noteq> Some 1 \<and>
   perspectives (state exampleListed) = Some [(''A'', examplePerspective)] \<and>
   storageField (step exampleListed (NewProps exampleSwapProps)) = Some 1 \<and>
   perspectives (state (step exampleListed (NewProps exampleSwapProps))) = None \<and>
   error (state (step exampleListed (NewProps exampleSwapProps))) = False \<and>
   promise (state (step exampleListed (NewProps exampleSwapProps))) = Some 1 \<and>
   promise (state (step exampleListed (NewProps exampleSwapProps))) \<noteq>
     promise (state exampleListed) \<and>
   pending (step exampleListed (NewProps exampleSwapProps)) = [AwaitEnumerate 1] \<and>
   enumerations (trace (step exampleListed (NewProps exampleSwapProps))) = [0, 1]"
proof -
  have a: "storage exampleSwapProps = Some 1" by (simp add: exampleSwapProps_def)
  have b: "storageField exampleListed \<noteq> Some 1" by (simp add: exampleListed_facts)
  from storage_swap_reloads_once [OF reachable_exampleListed exampleListed_facts(1) a b]
  show ?thesis
    using a b reachable_exampleListed by (simp add: exampleListed_facts del: step.simps)
qed

text \<open>
  C6. The bar is mounted on storage 0 and starts enumerating it; before that enumeration
  completes the props bring storage 1. The swap does what it can see: the bar is
  subscribed to storage 1, the list is absent, there is exactly one new enumeration, of
  storage 1, and its promise is the in-flight marker. But the fetch that was in flight is
  not invalidated: its continuation is still suspended, and when it completes the list of
  storage 0 is installed in a bar that is subscribed to storage 1, and the marker of the
  new enumeration is cleared while that enumeration is still under way.
\<close>

theorem swap_leaves_old_fetch_live:
  "storageField exampleSwapped = Some 1 \<and>
   enumerations (trace exampleSwapped) = [0, 1] \<and>
   perspectives (state exampleSwapped) = None \<and>
   error (state exampleSwapped) = False \<and>
   promise (state exampleSwapped) = Some 1 \<and>
   pending exampleSwapped = [AwaitEnumerate 0, AwaitEnumerate 1] \<and>
   storageField (step exampleSwapped (Resolve 0 (Listed [(''A'', examplePerspective)]))) = Some 1 \<and>
   perspectives (state (step exampleSwapped (Resolve 0 (Listed [(''A'', examplePerspective)])))) =
     Some [(''A'', examplePerspective)] \<and>
   promise (state (step exampleSwapped (Resolve 0 (Listed [(''A'', examplePerspective)])))) = None \<and>
   pending (step exampleSwapped (Resolve 0 (Listed [(''A'', examplePerspective)]))) =
     [AwaitEnumerate 1] \<and>
   enumerations (trace (step exampleSwapped (Resolve 0 (Listed [(''A'', examplePerspective)])))) =
     [0, 1]"
  by code_simp

text \<open>
  C4. The bar is mounted on storage 0 and starts enumerating it; before that enumeration
  completes the props bring storage 1, which forces a reload and starts a second
  enumeration. Both completions are still applied, whichever comes first: the list of
  storage 1 is overwritten by the late list of storage 0, and a completion of the
  superseded enumeration clears the in-flight marker of the newer one. Only after the
  unmount does a late completion leave the state alone, because React drops the state
  updates of a component that is not mounted.
\<close>

theorem superseded_enumeration_still_applies:
  "pending exampleSwapped = [AwaitEnumerate 0, AwaitEnumerate 1] \<and>
   promise (state exampleSwapped) = Some 1 \<and>
   storageField exampleSwapped = Some 1 \<and>
   perspectives (state (run exampleSwapped [Resolve 1 (Listed [(''B'', otherPerspective)])])) =
     Some [(''B'', otherPerspective)] \<and>
   perspectives (state (run exampleSwapped
      [Resolve 1 (Listed [(''B'', otherPerspective)]),
       Resolve 0 (Listed [(''A'', examplePerspective)])])) = Some [(''A'', examplePerspective)] \<and>
   perspectives (state (run exampleSwapped [Resolve 0 (Listed [(''A'', examplePerspective)])])) =
     Some [(''A'', examplePerspective)] \<and>
   promise (state (run exampleSwapped [Resolve 0 (Listed [(''A'', examplePerspective)])])) = None \<and>
   pending (run exampleSwapped [Resolve 0 (Listed [(''A'', examplePerspective)])]) = [AwaitEnumerate 1] \<and>
   state (run (constructor exampleProps)
            [DidMount, WillUnmount, Resolve 0 (Listed [(''A'', examplePerspective)])]) =
     state (run (constructor exampleProps) [DidMount, WillUnmount])"
  by code_simp

lemma storageUpdates_append [simp]: "storageUpdates (xs @ ys) = storageUpdates xs @ storageUpdates ys"
  by (simp add: storageUpdates_def map_filter_def)

lemma storageUpdates_simps [simp]:
  "storageUpdates [] = []"
  "storageUpdates (e # tr) =
     (case updateWritten e of Some u \<Rightarrow> u # storageUpdates tr | None \<Rightarrow> storageUpdates tr)"
  by (simp_all add: storageUpdates_def map_filter_def split: option.splits)

lemma list_ex_take_drop:
  "\<not> list_ex P xs \<Longrightarrow> \<not> list_ex P (take i xs @ drop (Suc i) xs)"
  by (auto simp: list_ex_iff dest: in_set_takeD in_set_dropD)

lemma setStorage_just [simp]:
  "storageUpdates (trace (setStorage v s)) = storageUpdates (trace s)"
  "list_ex baselineCall (trace (setStorage v s)) = list_ex baselineCall (trace s)"
  by (auto simp: setStorage_def forceReload_def Let_def split: option.splits)

lemma setWorkbench_just [simp]:
  "storageUpdates (trace (setWorkbench v s)) = storageUpdates (trace s)"
  "list_ex baselineCall (trace (setWorkbench v s)) = list_ex baselineCall (trace s)"
  by (auto simp: setWorkbench_def emit_def Let_def split: option.splits)

lemma startLoading_just [simp]:
  "storageUpdates (trace (startLoadingIfNeeded s)) = storageUpdates (trace s)"
  "list_ex baselineCall (trace (startLoadingIfNeeded s)) = list_ex baselineCall (trace s)"
  "list_ex awaitsBaseline (pending (startLoadingIfNeeded s)) = list_ex awaitsBaseline (pending s)"
  by (auto simp: startLoadingIfNeeded_def Let_def split: option.splits)

lemma didUpdate_just [simp]:
  "storageUpdates (trace (componentDidUpdate s)) = storageUpdates (trace s)"
  "list_ex baselineCall (trace (componentDidUpdate s)) = list_ex baselineCall (trace s)"
  "list_ex awaitsBaseline (pending (componentDidUpdate s)) = list_ex awaitsBaseline (pending s)"
  "storageUpdates (trace (componentDidMount s)) = storageUpdates (trace s)"
  "list_ex baselineCall (trace (componentDidMount s)) = list_ex baselineCall (trace s)"
  "list_ex awaitsBaseline (pending (componentDidMount s)) = list_ex awaitsBaseline (pending s)"
  by (simp_all add: componentDidUpdate_def componentDidMount_def)

lemma settle_just [simp]:
  "storageUpdates (trace (settle s)) = storageUpdates (trace s) \<and>
   list_ex baselineCall (trace (settle s)) = list_ex baselineCall (trace s) \<and>
   list_ex awaitsBaseline (pending (settle s)) = list_ex awaitsBaseline (pending s)"
proof (induction s rule: settle.induct)
  case (1 s)
  show ?case
  proof (cases "updates s")
    case None
    then show ?thesis by (simp add: settle_None)
  next
    case (Some a)
    then show ?thesis using 1[OF Some] by (simp add: settle_Some)
  qed
qed

lemma settle_justified [simp]: "baselineJustified (settle s) = baselineJustified s"
  by (simp add: baselineJustified_def)


lemma restoreState_just [simp]:
  "lastState (restoreState w st sync c s) = lastState s"
  by (simp add: restoreState_def onWorkbenchChanged_def updateCurrentPerspectiveWith_def Let_def
      split: option.splits)

lemma resume_called:
  "resume k a s = Some s' \<Longrightarrow> list_ex baselineCall (trace s) \<Longrightarrow> list_ex baselineCall (trace s')"
  by (cases k; cases a)
     (auto simp: enumerateResolved_def enumerateRejected_def loadPerspectiveByIdResumed_def
        restoreState_def onWorkbenchChanged_def updateCurrentPerspectiveWith_def
        revertConfirmed_def revertReverted_def loadPerspectiveById_def createConfirmed_def
        createSaved_def requestSelectedPerspectiveIdChange_def updateResumed_def Let_def
        split: option.splits if_splits)

lemma resume_uncalled:
  "resume k a s = Some s' \<Longrightarrow> \<not> awaitsBaseline k \<Longrightarrow> lastState s = None \<Longrightarrow>
   \<not> list_ex awaitsBaseline (pending s) \<Longrightarrow> baselineJustified s'"
  by (cases k; cases a)
     (auto simp: baselineJustified_def enumerateResolved_def enumerateRejected_def
        revertConfirmed_def revertReverted_def loadPerspectiveById_def createConfirmed_def
        Let_def split: option.splits if_splits)

lemma resume_justified:
  assumes "baselineJustified s" "i < length (pending s)"
    "resume (pending s ! i) a (s\<lparr>pending := take i (pending s) @ drop (Suc i) (pending s)\<rparr>) = Some s'"
  shows "baselineJustified s'"
proof (cases "list_ex baselineCall (trace s)")
  case True
  then show ?thesis using resume_called[OF assms(3)] by (simp add: baselineJustified_def)
next
  case False
  then have n: "lastState s = None" "\<not> list_ex awaitsBaseline (pending s)"
    using assms(1) by (simp_all add: baselineJustified_def)
  have "\<not> awaitsBaseline (pending s ! i)"
    using n(2) assms(2) by (auto simp: list_ex_iff)
  moreover have "\<not> list_ex awaitsBaseline (take i (pending s) @ drop (Suc i) (pending s))"
    using n(2) by (rule list_ex_take_drop)
  ultimately show ?thesis using resume_uncalled[OF assms(3)] n(1) by simp
qed

lemma handlers_justified:
  "baselineJustified s \<Longrightarrow> baselineJustified (onPerspectiveButtonClicked i m s)"
  "baselineJustified s \<Longrightarrow> baselineJustified (createNewPerspective c s)"
  "baselineJustified s \<Longrightarrow> baselineJustified (persistModificationsOfCurrentPerspective c s)"
  "baselineJustified s \<Longrightarrow> baselineJustified (forceReload s)"
  "baselineJustified s \<Longrightarrow> baselineJustified (onWorkbenchChanged c s)"
  "baselineJustified s \<Longrightarrow> baselineJustified (onStorageChanged s)"
  "baselineJustified s \<Longrightarrow> baselineJustified (componentWillUnmount s)"
  by (auto simp: baselineJustified_def onPerspectiveButtonClicked_def
      revertModificationsOfCurrentPerspective_def loadPerspectiveById_def createNewPerspective_def
      persistModificationsOfCurrentPerspective_def updateCurrentPerspective_def
      updateCurrentPerspectiveWith_def forceReload_def onWorkbenchChanged_def onStorageChanged_def
      componentWillUnmount_def cancelLoading_def
      Let_def split: option.splits if_splits)

lemma justified_fields [simp]:
  "baselineJustified (s\<lparr>state := st\<rparr>) = baselineJustified s"
  "baselineJustified (s\<lparr>props := p\<rparr>) = baselineJustified s"
  "baselineJustified (s\<lparr>phase := ph\<rparr>) = baselineJustified s"
  "baselineJustified (s\<lparr>updates := u\<rparr>) = baselineJustified s"
  by (simp_all add: baselineJustified_def)

lemma didUpdate_justified [simp]:
  "baselineJustified (componentDidUpdate s) = baselineJustified s"
  "baselineJustified (componentDidMount s) = baselineJustified s"
  by (simp_all add: baselineJustified_def componentDidMount_def componentDidUpdate_def)

lemma step_justified: "baselineJustified s \<Longrightarrow> baselineJustified (step s e)"
proof (cases e)
  case (Resolve i a)
  assume j: "baselineJustified s"
  show ?thesis
  proof (cases "i < length (pending s)")
    case False
    then show ?thesis using j Resolve by simp
  next
    case True
    show ?thesis
    proof (cases "resume (pending s ! i) a (s\<lparr>pending := take i (pending s) @ drop (Suc i) (pending s)\<rparr>)")
      case None
      then show ?thesis using j Resolve True by simp
    next
      case (Some s')
      then show ?thesis using resume_justified[OF j True Some] Resolve True by simp
    qed
  qed
qed (auto simp: handlers_justified)

lemma reachable_justified: "reachable s \<Longrightarrow> baselineJustified s"
  by (induction rule: reachable.induct)
     (simp_all add: step_justified, simp add: baselineJustified_def constructor_def)

lemma onWorkbenchChanged_writes:
  "storageUpdates (trace (onWorkbenchChanged c s)) \<noteq> storageUpdates (trace s) \<Longrightarrow>
   selectedPerspectiveId (state s) \<noteq> None \<and> lastState s \<noteq> None \<and>
   ignoreStateChangeCounter s \<le> 0"
  by (auto simp: onWorkbenchChanged_def currentPerspectiveNeedsSavingAfterChange_def
      updateCurrentPerspectiveWith_def split: option.splits if_splits)

lemma updateWritten_baseline: "updateWritten e = Some u \<Longrightarrow> baselineCall e"
  by (cases e) auto

lemma no_call_no_update: "\<not> list_ex baselineCall tr \<Longrightarrow> storageUpdates tr = []"
  by (induction tr) (auto split: option.splits dest: updateWritten_baseline)

text \<open>
  C10, as amended. In every reachable state, a \<open>stateChanged\<close> notification adds a call of
  \<open>storage.update\<close> only if it is not suppressed, a perspective is selected and
  a baseline state is recorded; and a baseline state is recorded only after the bar has
  called \<open>storage.load\<close>, \<open>storage.save\<close> or
  \<open>storage.update\<close>. So as long as the bar has made none of these calls
  (no load, and no create or save either), a workbench change writes nothing to the
  storage, also when the selected id comes from the props.
\<close>

theorem autosave_needs_selection_and_baseline:
  assumes "reachable s"
  shows "(storageUpdates (trace (step s (StateChanged current))) \<noteq> storageUpdates (trace s) \<longrightarrow>
            ignoreStateChangeCounter s \<le> 0 \<and> selectedPerspectiveId (state s) \<noteq> None \<and>
            lastState s \<noteq> None \<and> list_ex baselineCall (trace s))
       \<and> (lastState s \<noteq> None \<longrightarrow> list_ex baselineCall (trace s))
       \<and> (\<not> list_ex baselineCall (trace s) \<longrightarrow>
            storageUpdates (trace (step s (StateChanged current))) = [])"
proof -
  have j: "baselineJustified s" using assms by (rule reachable_justified)
  have b: "lastState s \<noteq> None \<longrightarrow> list_ex baselineCall (trace s)"
    using j by (auto simp: baselineJustified_def)
  have a: "storageUpdates (trace (step s (StateChanged current))) \<noteq> storageUpdates (trace s) \<longrightarrow>
            ignoreStateChangeCounter s \<le> 0 \<and> selectedPerspectiveId (state s) \<noteq> None \<and>
            lastState s \<noteq> None \<and> list_ex baselineCall (trace s)"
    using onWorkbenchChanged_writes[of current s] b by (auto split: if_splits)
  have n: "\<not> list_ex baselineCall (trace s) \<longrightarrow> storageUpdates (trace s) = []"
    by (simp add: no_call_no_update)
  from a b n show ?thesis by metis
qed

lemma reachable_exampleEditing: "reachable exampleEditing"
  unfolding exampleEditing_def by (intro reachable_run reachable_exampleRestoring)

lemma reachable_exampleControlledListed: "reachable exampleControlledListed"
  unfolding exampleControlledListed_def by (intro reachable_run reachable_init)

lemma exampleEditing_facts:
  "storageUpdates (trace exampleEditing) = []"
  "storageUpdates (trace (step exampleEditing (StateChanged (pstate otherPerspective)))) =
     [(''A'', pstate otherPerspective)]"
  "ignoreStateChangeCounter exampleEditing = 0"
  "selectedPerspectiveId (state exampleEditing) = Some ''A''"
  "lastState exampleEditing = Some exampleState"
  "list_ex baselineCall (trace exampleEditing)"
  by code_simp+

lemma exampleControlledListed_facts:
  "selectedPerspectiveIdProp (props exampleControlledListed) = Some (Some ''A'')"
  "selectedPerspectiveId (state exampleControlledListed) = Some ''A''"
  "workbenchField exampleControlledListed = Some 0"
  "\<not> list_ex baselineCall (trace exampleControlledListed)"
  "lastState exampleControlledListed = None"
  by code_simp+

theorem autosave_needs_selection_and_baseline_witness:
  "reachable exampleEditing \<and>
   storageUpdates (trace (step exampleEditing (StateChanged (pstate otherPerspective)))) \<noteq>
     storageUpdates (trace exampleEditing) \<and>
   ignoreStateChangeCounter exampleEditing \<le> 0 \<and>
   selectedPerspectiveId (state exampleEditing) \<noteq> None \<and>
   lastState exampleEditing \<noteq> None \<and>
   list_ex baselineCall (trace exampleEditing) \<and>
   reachable exampleControlledListed \<and>
   selectedPerspectiveId (state exampleControlledListed) = Some ''A'' \<and>
   \<not> list_ex baselineCall (trace exampleControlledListed) \<and>
   storageUpdates (trace (step exampleControlledListed (StateChanged (pstate otherPerspective)))) = []"
proof -
  note t1 = autosave_needs_selection_and_baseline [OF reachable_exampleEditing,
      of "pstate otherPerspective"]
  note t2 = autosave_needs_selection_and_baseline [OF reachable_exampleControlledListed,
      of "pstate otherPerspective"]
  show ?thesis
    using t1 t2 reachable_exampleEditing reachable_exampleControlledListed
    by (auto simp: exampleEditing_facts exampleControlledListed_facts simp del: step.simps)
qed

text \<open>
  The claim as stated fails for a controlled bar that has created a perspective and
  loaded none: the parent says \<open>A\<close> is selected, the creation has recorded the
  draft's state as the baseline, and the next workbench change is written to the storage
  under \<open>A\<close>, although no perspective was ever loaded.
\<close>

theorem autosave_after_create_counterexample:
  "selectedPerspectiveIdProp (props exampleControlledCreated) = Some (Some ''A'') \<and>
   trace exampleControlledCreated =
     [StorageSubscribe 0, WorkbenchOn 0, StorageMap 0, EnvCreating 0 exampleDraft,
      StorageSave 0 examplePerspective] \<and>
   lastState exampleControlledCreated = Some exampleState \<and>
   ignoreStateChangeCounter exampleControlledCreated = 0 \<and>
   trace (step exampleControlledCreated (StateChanged (pstate otherPerspective))) =
     trace exampleControlledCreated @ [StorageUpdate 0 ''A'' (pstate otherPerspective)] \<and>
   storageUpdates (trace (step exampleControlledCreated (StateChanged (pstate otherPerspective)))) =
     [(''A'', pstate otherPerspective)]"
  by code_simp

lemma reachableTimely_reachable: "reachableTimely s \<Longrightarrow> reachable s"
  by (induction rule: reachableTimely.induct) (auto intro: reachable.intros)

lemma reachableTimely_run: "reachableTimely s \<Longrightarrow> timely s es \<Longrightarrow> reachableTimely (run s es)"
  unfolding run_def
  by (induction es arbitrary: s) (auto intro: reachableTimely.intros)

lemma exclusive_simps [simp]:
  "exclusive (getDerivedStateFromProps p st) = exclusive st"
  "exclusive (reloaded st)"
  "exclusive (st\<lparr>selectedPerspectiveId := x\<rparr>) = exclusive st"
  "exclusive (st\<lparr>counter := c\<rparr>) = exclusive st"
  "exclusive (st\<lparr>error := False, perspectives := Some l, promise := None\<rparr>)"
  "exclusive (st\<lparr>counter := c, error := False, perspectives := None, promise := None\<rparr>)"
  "exclusive st \<Longrightarrow> exclusive (st\<lparr>promise := None\<rparr>)"
  by (auto simp: exclusive_def reloaded_def getDerivedStateFromProps_def split: option.splits)

lemma exclusive_next_setStorage:
  "exclusive (nextState s) \<Longrightarrow> exclusive (nextState (setStorage v s))"
  by (auto simp: setStorage_def forceReload_def Let_def split: option.splits)

lemma perspectives_next_setStorage:
  "updates s = None \<Longrightarrow> perspectives (state s) = None \<Longrightarrow>
   perspectives (nextState (setStorage v s)) = None"
  by (auto simp: setStorage_def forceReload_def Let_def nextState_settled split: option.splits)

lemma next_setWorkbench [simp]: "nextState (setWorkbench v s) = nextState s"
  by (auto simp: setWorkbench_def Let_def nextState_def emit_def split: option.splits)

lemma exclusive_next_startLoading:
  "exclusive (nextState s) \<Longrightarrow>
   (perspectives (state s) = None \<longrightarrow> perspectives (nextState s) = None) \<Longrightarrow>
   exclusive (nextState (startLoadingIfNeeded s))"
  by (auto simp: startLoadingIfNeeded_def Let_def exclusive_def split: option.splits)

lemma exclusive_next_didUpdate:
  assumes "updates s = None" "exclusive (state s)"
  shows "exclusive (nextState (componentDidUpdate s))"
proof -
  let ?b = "setWorkbench (workbench (props s)) (setStorage (storage (props s)) s)"
  have "exclusive (nextState s)" using assms by (simp add: nextState_def)
  then have 1: "exclusive (nextState ?b)" by (simp add: exclusive_next_setStorage)
  have 2: "perspectives (state ?b) = None \<longrightarrow> perspectives (nextState ?b) = None"
    using assms(1) by (simp add: perspectives_next_setStorage)
  show ?thesis unfolding componentDidUpdate_def using 1 2 by (rule exclusive_next_startLoading)
qed

lemma settle_exclusive: "exclusive (nextState s) \<Longrightarrow> exclusive (state (settle s))"
proof (induction s rule: settle.induct)
  case (1 s)
  show ?case
  proof (cases "updates s")
    case None
    then show ?thesis using 1(2) by (simp add: settle_None nextState_def)
  next
    case (Some a)
    let ?s1 = "s\<lparr>state := getDerivedStateFromProps (props s) a, updates := None\<rparr>"
    have "exclusive a" using 1(2) Some by (simp add: nextState_def)
    then have "exclusive (nextState (componentDidUpdate ?s1))"
      by (intro exclusive_next_didUpdate) simp_all
    then show ?thesis using 1(1)[OF Some] Some by (simp add: settle_Some)
  qed
qed


lemma exclusive_next_didMount:
  "updates s = None \<Longrightarrow> exclusive (state s) \<Longrightarrow> exclusive (nextState (componentDidMount s))"
  using exclusive_next_didUpdate by (simp add: componentDidMount_def componentDidUpdate_def)

lemma next_onWorkbenchChanged [simp]: "nextState (onWorkbenchChanged c s) = nextState s"
  by (simp add: onWorkbenchChanged_def updateCurrentPerspectiveWith_def split: option.splits)

lemma next_restoreState [simp]: "nextState (restoreState w st sync c s) = nextState s"
  by (simp add: restoreState_def Let_def)

lemma handlers_next:
  "nextState (onPerspectiveButtonClicked i m s) = nextState s"
  "nextState (createNewPerspective c s) = nextState s"
  "nextState (persistModificationsOfCurrentPerspective c s) = nextState s"
  by (simp_all add: onPerspectiveButtonClicked_def revertModificationsOfCurrentPerspective_def
      loadPerspectiveById_def createNewPerspective_def persistModificationsOfCurrentPerspective_def
      updateCurrentPerspective_def updateCurrentPerspectiveWith_def Let_def split: option.splits)

lemma handlers_exclusive:
  "exclusive (nextState s) \<Longrightarrow> exclusive (nextState (forceReload s))"
  "exclusive (nextState s) \<Longrightarrow> exclusive (nextState (onStorageChanged s))"
  by (simp_all add: forceReload_def onStorageChanged_def Let_def)

lemma unmount_state [simp]: "state (componentWillUnmount s) = state s"
  by (simp add: componentWillUnmount_def cancelLoading_def)

lemma resume_exclusive:
  "resume k a s = Some s' \<Longrightarrow> exclusive (nextState s) \<Longrightarrow>
   (\<forall>p. k = AwaitEnumerate p \<and> a = Rejected \<longrightarrow> promise (nextState s) = Some p) \<Longrightarrow>
   exclusive (nextState s')"
  by (cases k; cases a)
     (auto simp: enumerateResolved_def enumerateRejected_def loadPerspectiveByIdResumed_def
        revertConfirmed_def revertReverted_def loadPerspectiveById_def createConfirmed_def
        createSaved_def requestSelectedPerspectiveIdChange_def updateResumed_def Let_def
        exclusive_def split: option.splits if_splits)

lemma step_exclusive:
  assumes u: "updates s = None" and x: "exclusive (state s)" and o: "\<not> lateFailure s e"
  shows "exclusive (state (step s e))"
proof -
  have n: "nextState s = state s" using u by (simp add: nextState_def)
  show ?thesis
  proof (cases e)
    case DidMount
    then show ?thesis using u x by (auto intro!: settle_exclusive exclusive_next_didMount)
  next
    case (NewProps p)
    then show ?thesis using u x by (auto intro!: settle_exclusive exclusive_next_didUpdate)
  next
    case WillUnmount
    then show ?thesis using x by simp
  next
    case (ClickPerspective i m)
    then show ?thesis using x n by (auto intro!: settle_exclusive simp: handlers_next)
  next
    case (ClickNew c)
    then show ?thesis using x n by (auto intro!: settle_exclusive simp: handlers_next)
  next
    case (ClickSave c)
    then show ?thesis using x n by (auto intro!: settle_exclusive simp: handlers_next)
  next
    case ClickReload
    then show ?thesis using x n by (auto intro!: settle_exclusive handlers_exclusive)
  next
    case (StateChanged c)
    then show ?thesis using x n by (auto intro!: settle_exclusive)
  next
    case StorageChanged
    then show ?thesis using x n by (auto intro!: settle_exclusive handlers_exclusive)
  next
    case (Resolve i a)
    show ?thesis
    proof (cases "i < length (pending s)")
      case False
      then show ?thesis using x Resolve by simp
    next
      case True
      let ?s0 = "s\<lparr>pending := take i (pending s) @ drop (Suc i) (pending s)\<rparr>"
      show ?thesis
      proof (cases "resume (pending s ! i) a ?s0")
        case None
        then show ?thesis using x Resolve True by simp
      next
        case (Some s')
        have f: "\<forall>p. pending s ! i = AwaitEnumerate p \<and> a = Rejected \<longrightarrow>
            promise (nextState ?s0) = Some p"
          using o True Resolve n by (auto simp: lateFailure_def)
        have "exclusive (nextState ?s0)" using x n by simp
        from resume_exclusive[OF Some this f] have "exclusive (nextState s')" .
        then show ?thesis using Resolve True Some by (simp add: settle_exclusive)
      qed
    qed
  qed
qed

lemma reachableTimely_exclusive: "reachableTimely s \<Longrightarrow> exclusive (state s)"
proof (induction rule: reachableTimely.induct)
  case (timely_init p)
  then show ?case by (simp add: constructor_def exclusive_def)
next
  case (timely_step s e)
  have "updates s = None"
    using timely_step(1) by (intro reachable_updates reachableTimely_reachable)
  then show ?case using timely_step by (intro step_exclusive)
qed

lemma settle_wired_state:
  assumes "wired s" "updates s = Some a" "phase s = Mounted"
  shows "error (state (settle s)) = error a \<and> perspectives (state (settle s)) = perspectives a"
proof (cases "needsLoading (props s) a")
  case True
  then obtain b where "storage (props s) = Some b" by (auto simp: needsLoading_def)
  from settle_wired_loading [OF assms(1,2) True assms(3) this] show ?thesis by simp
next
  case False
  from settle_wired_idle [OF assms(1,2) False] show ?thesis by simp
qed

lemma enumerateRejected_next:
  "phase s = Mounted \<Longrightarrow> nextState (enumerateRejected s) = (nextState s)\<lparr>error := True, promise := None\<rparr>"
  by (simp add: enumerateRejected_def)

text \<open>
  Where the exclusion does hold. In every state reached by a run in which no enumeration
  fails after it has been superseded, the error flag and a populated list exclude each
  other, and so do the in-flight marker and a populated list; and when an enumeration
  fails, then once the bar has settled the error flag is set and the list is as it was.
\<close>

lemma error_and_list_exclusive_when_timely:
  assumes "reachableTimely s"
  shows "(error (state s) \<longrightarrow> perspectives (state s) = None)
       \<and> (promise (state s) \<noteq> None \<longrightarrow> perspectives (state s) = None)
       \<and> (i < length (pending s) \<and> pending s ! i = AwaitEnumerate p \<and> phase s = Mounted \<longrightarrow>
            error (state (step s (Resolve i Rejected))) \<and>
            perspectives (state (step s (Resolve i Rejected))) = perspectives (state s))"
proof -
  have u: "updates s = None"
    using assms by (intro reachable_updates reachableTimely_reachable)
  have x: "exclusive (state s)" using assms by (rule reachableTimely_exclusive)
  have d: "error (state (step s (Resolve i Rejected))) \<and>
           perspectives (state (step s (Resolve i Rejected))) = perspectives (state s)"
    if h: "i < length (pending s)" "pending s ! i = AwaitEnumerate p" "phase s = Mounted"
  proof -
    let ?s0 = "s\<lparr>pending := take i (pending s) @ drop (Suc i) (pending s)\<rparr>"
    let ?s1 = "enumerateRejected ?s0"
    have st: "step s (Resolve i Rejected) = settle ?s1" using h by simp
    have w: "wired s" using assms h(3) by (intro reachable_wired reachableTimely_reachable)
    have w1: "wired ?s1" using w by (simp add: wired_def enumerateRejected_def)
    have u1: "updates ?s1 = Some ((state s)\<lparr>error := True, promise := None\<rparr>)"
      using u h(3) by (simp add: enumerateRejected_def setState_def)
    have p1: "phase ?s1 = Mounted" using h(3) by (simp add: enumerateRejected_def)
    from settle_wired_state [OF w1 u1 p1] show ?thesis unfolding st by simp
  qed
  from x d show ?thesis by (simp add: exclusive_def del: step.simps)
qed


lemma reachableTimely_exampleFailed: "reachableTimely exampleFailed"
proof -
  have "timely (constructor exampleProps) [DidMount, Resolve 0 Rejected]" by code_simp
  then show ?thesis
    unfolding exampleFailed_def by (intro reachableTimely_run timely_init)
qed

lemma exampleFailed_facts:
  "error (state exampleFailed)"
  "perspectives (state exampleFailed) = None"
  "promise (state exampleFailed) = Some 1"
  "phase exampleFailed = Mounted"
  "pending exampleFailed = [AwaitEnumerate 1]"
  by code_simp+

lemma error_and_list_exclusive_when_timely_example:
  "reachableTimely exampleFailed \<and> error (state exampleFailed) \<and>
   promise (state exampleFailed) \<noteq> None \<and> perspectives (state exampleFailed) = None \<and>
   phase exampleFailed = Mounted \<and> 0 < length (pending exampleFailed) \<and>
   pending exampleFailed ! 0 = AwaitEnumerate 1 \<and>
   error (state (step exampleFailed (Resolve 0 Rejected))) \<and>
   perspectives (state (step exampleFailed (Resolve 0 Rejected))) = None"
  using error_and_list_exclusive_when_timely [OF reachableTimely_exampleFailed, of 0 1]
    reachableTimely_exampleFailed
  by (simp add: exampleFailed_facts del: step.simps)

text \<open>
  C8. The first enumeration fails and the bar starts a second one by itself; the user
  clicks the reload button, which starts a third and makes it the in-flight marker; the
  third delivers the list; then the second, which the click had superseded, fails. Its
  failure is still applied: the bar ends with the error flag set beside a populated list.
\<close>

theorem error_flag_beside_list:
  "pending exampleRetried = [AwaitEnumerate 1, AwaitEnumerate 2] \<and>
   promise (state exampleRetried) = Some 2 \<and>
   lateFailure (run exampleRetried [Resolve 1 (Listed [(''A'', examplePerspective)])])
     (Resolve 0 Rejected) \<and>
   error (state (run exampleRetried
      [Resolve 1 (Listed [(''A'', examplePerspective)]), Resolve 0 Rejected])) = True \<and>
   perspectives (state (run exampleRetried
      [Resolve 1 (Listed [(''A'', examplePerspective)]), Resolve 0 Rejected])) =
     Some [(''A'', examplePerspective)]"
  by code_simp

end
